theory Spec2Isabelle
  imports Complex_Main "HOL-Library.AList"
begin

section \<open>The odometry node wrapper (OdometryROS.cpp)\<close>

text \<open>
  The node wraps an estimator object (\<^verbatim>\<open>odometry_\<close>, class \<^verbatim>\<open>rtabmap::Odometry\<close>) and a
  transform listener (\<^verbatim>\<open>tfListener_\<close>). Both belong to other libraries, so they enter the
  model as parameters: the estimator as a record of its methods over an arbitrary state
  type \<open>'e\<close>, the listener as the answers it gives during one call.

  \<^verbatim>\<open>rtabmap::Transform\<close> is a type of the estimator library as well. The code uses the
  default-constructed (null) transform, the identity, \<^verbatim>\<open>inverse()\<close> and \<^verbatim>\<open>operator*\<close>;
  the model takes any type \<open>'t\<close> with \<open>0\<close> (null), \<open>1\<close> (identity), \<open>inverse\<close> and \<open>*\<close>,
  and assumes no law about them.
\<close>

subsection \<open>Data\<close>

text \<open>\<^verbatim>\<open>ros::Time\<close>, in nanoseconds; \<^verbatim>\<open>isZero()\<close> is \<open>stamp = 0\<close>.\<close>

type_synonym Time = nat

definition isNull :: "'t::zero \<Rightarrow> bool" where
  "isNull t \<longleftrightarrow> t = 0"

definition isIdentity :: "'t::one \<Rightarrow> bool" where
  "isIdentity t \<longleftrightarrow> t = 1"

text \<open>
  The methods of \<^verbatim>\<open>rtabmap::Odometry\<close> that the node calls. \<open>process\<close> takes the
  sensor data and the guess and returns the pose (null when the estimation failed) and the
  estimator's next state; the diagnostics record \<^verbatim>\<open>info\<close> only feeds message fields
  that are left out below. \<open>previousStamp\<close> includes the conversion
  \<^verbatim>\<open>ros::Time(double)\<close>.
\<close>

record ('e, 'd, 't) Odometry =
  getPose :: "'e \<Rightarrow> 't"
  reset :: "'t \<Rightarrow> 'e \<Rightarrow> 'e"
  process :: "'d \<Rightarrow> 't \<Rightarrow> 'e \<Rightarrow> 't \<times> 'e"
  previousStamp :: "'e \<Rightarrow> Time"

text \<open>
  What the ROS side answers during one call of \<^verbatim>\<open>processData\<close>: the transform listener
  (\<open>tf_waitForTransform\<close> is \<^verbatim>\<open>tfListener_.waitForTransform\<close> with the configured
  duration, \<open>tf_lookupTransform\<close> is \<^verbatim>\<open>lookupTransform\<close> followed by
  \<^verbatim>\<open>transformFromTF\<close>, \<open>None\<close> when it throws \<^verbatim>\<open>tf::TransformException\<close>) and the
  subscriber counts of the two publishers whose use is gated.
\<close>

record 't ROS =
  tf_waitForTransform :: "string \<Rightarrow> string \<Rightarrow> Time \<Rightarrow> bool"
  tf_lookupTransform :: "string \<Rightarrow> string \<Rightarrow> Time \<Rightarrow> 't option"
  odomPub_getNumSubscribers :: nat
  odomInfoPub_getNumSubscribers :: nat

text \<open>The members of class \<^verbatim>\<open>OdometryROS\<close> (the trailing underscore dropped).\<close>

record 'e OdometryROS =
  odometry :: 'e
  frameId :: string
  odomFrameId :: string
  groundTruthFrameId :: string
  guessFrameId :: string
  publishTf :: bool
  waitForTransform :: bool
  waitForTransformDuration :: rat
  publishNullWhenLost :: bool
  guessFromTf :: bool
  paused :: bool
  resetCountdown :: int
  resetCurrentCount :: int

text \<open>
  The \<^verbatim>\<open>nav_msgs::Odometry\<close> message as far as the two publishing branches differ:
  header, child frame, pose (left default-constructed, that is null, by the lost branch)
  and the value written on the diagonal of the pose covariance (\<^verbatim>\<open>info.variance*2\<close> or
  \<^verbatim>\<open>BAD_COVARIANCE\<close>). The twist fields are left out.
\<close>

datatype covariance = Variance_x2 | BAD_COVARIANCE

record 't Odometry_msg =
  header_stamp :: Time
  header_frame_id :: string
  child_frame_id :: string
  pose_pose :: 't
  pose_covariance :: covariance

text \<open>
  What a call does to the outside, in order: the calls on the estimator (for
  \<^verbatim>\<open>process\<close> the guess passed and the pose returned), the log lines and the
  publications. The point clouds published for visualisation (lines 445-525) read the
  estimator and change nothing; they are left out.
\<close>

datatype 't event =
    Odometry_reset 't
  | Odometry_process 't 't
  | NODELET_WARN_Could_not_get_transform string string Time
  | NODELET_WARN_TransformException string string Time
  | NODELET_INFO_Initializing_odometry_pose 't
  | ROS_ERROR_guess_cannot_be_computed
  | tfBroadcaster_sendTransform Time string string 't
  | odomPub_publish "'t Odometry_msg"
  | NODELET_WARN_Odometry_lost int
  | NODELET_WARN_reset_to_latest_computed_pose
  | NODELET_WARN_reset_to_pose_from_TF
  | odomInfoPub_publish Time
  | NODELET_INFO_Odom

subsection \<open>getTransform (lines 300-327)\<close>

definition getTransform ::
  "'e OdometryROS \<Rightarrow> ('t::zero) ROS \<Rightarrow> string \<Rightarrow> string \<Rightarrow> Time \<Rightarrow> 't \<times> 't event list"
where
  "getTransform this ros fromFrameId toFrameId stamp =
     (if waitForTransform this \<and> stamp \<noteq> 0 \<and> waitForTransformDuration this > 0
         \<and> \<not> tf_waitForTransform ros fromFrameId toFrameId stamp
      then (0, [NODELET_WARN_Could_not_get_transform fromFrameId toFrameId stamp])
      else (case tf_lookupTransform ros fromFrameId toFrameId stamp of
              None \<Rightarrow> (0, [NODELET_WARN_TransformException fromFrameId toFrameId stamp])
            | Some transform \<Rightarrow> (transform, [])))"

subsection \<open>processData (lines 329-602)\<close>

text \<open>
  Lines 331-346: synchronisation with the first value of the ground truth. \<open>None\<close> is the
  \<^verbatim>\<open>return\<close> of line 338.
\<close>

definition processData_init ::
  "('e, 'd, 't::{zero,one}) Odometry \<Rightarrow> 't ROS \<Rightarrow> Time \<Rightarrow> 'e OdometryROS
     \<Rightarrow> 'e OdometryROS option \<times> 't event list"
where
  "processData_init odo ros stamp this =
     (if isIdentity (getPose odo (odometry this)) \<and> groundTruthFrameId this \<noteq> []
      then (case getTransform this ros (groundTruthFrameId this) (frameId this) stamp of
              (initialPose, evs) \<Rightarrow>
                if isNull initialPose then (None, evs)
                else (Some (this\<lparr>odometry := reset odo initialPose (odometry this)\<rparr>),
                      evs @ [NODELET_INFO_Initializing_odometry_pose initialPose,
                             Odometry_reset initialPose]))
      else (Some this, []))"

text \<open>
  Lines 348-372: the guess. \<open>None\<close> is the \<^verbatim>\<open>return\<close> of line 370; without
  \<^verbatim>\<open>guess_from_tf\<close> the guess stays the default-constructed (null) transform.
\<close>

definition processData_guess ::
  "('e, 'd, 't::{zero,times,inverse}) Odometry \<Rightarrow> 't ROS \<Rightarrow> Time \<Rightarrow> 'e OdometryROS
     \<Rightarrow> 't option \<times> 't event list"
where
  "processData_guess odo ros stamp this =
     (if guessFromTf this
      then (case getTransform this ros (odomFrameId this) (guessFrameId this)
                   (previousStamp odo (odometry this)) of
              (previousPose, evs1) \<Rightarrow>
           (case getTransform this ros (odomFrameId this) (guessFrameId this) stamp of
              (pose, evs2) \<Rightarrow>
                if \<not> isNull previousPose \<and> \<not> isNull pose
                then (Some (inverse previousPose * pose), evs1 @ evs2)
                else (None, evs1 @ evs2 @ [ROS_ERROR_guess_cannot_be_computed])))
      else (Some 0, []))"

text \<open>
  Lines 379-551: after \<^verbatim>\<open>process\<close> returned \<open>pose\<close>. A valid pose reloads the counter
  and is broadcast and published; a null pose is published as such when
  \<^verbatim>\<open>publish_null_when_lost\<close> is set, whoever listens.
\<close>

definition processData_publish ::
  "('t::zero) ROS \<Rightarrow> Time \<Rightarrow> 't \<Rightarrow> 'e OdometryROS \<Rightarrow> 'e OdometryROS \<times> 't event list"
where
  "processData_publish ros stamp pose this =
     (if \<not> isNull pose
      then (this\<lparr>resetCurrentCount := resetCountdown this\<rparr>,
            (if publishTf this
             then [tfBroadcaster_sendTransform stamp (odomFrameId this) (frameId this) pose]
             else [])
            @ (if odomPub_getNumSubscribers ros \<noteq> 0
               then [odomPub_publish \<lparr>header_stamp = stamp, header_frame_id = odomFrameId this,
                       child_frame_id = frameId this, pose_pose = pose,
                       pose_covariance = Variance_x2\<rparr>]
               else []))
      else if publishNullWhenLost this
      then (this, [odomPub_publish \<lparr>header_stamp = stamp, header_frame_id = odomFrameId this,
                     child_frame_id = frameId this, pose_pose = 0,
                     pose_covariance = BAD_COVARIANCE\<rparr>])
      else (this, []))"

text \<open>Lines 553-575: the countdown to the automatic reset.\<close>

definition processData_countdown ::
  "('e, 'd, 't::zero) Odometry \<Rightarrow> 't ROS \<Rightarrow> Time \<Rightarrow> 't \<Rightarrow> 'e OdometryROS
     \<Rightarrow> 'e OdometryROS \<times> 't event list"
where
  "processData_countdown odo ros stamp pose this =
     (if isNull pose \<and> resetCurrentCount this > 0
      then (let evs = [NODELET_WARN_Odometry_lost (resetCurrentCount this)];
                this1 = this\<lparr>resetCurrentCount := resetCurrentCount this - 1\<rparr>
            in if resetCurrentCount this1 = 0
               then (case getTransform this1 ros (odomFrameId this1) (frameId this1) stamp of
                       (tfPose, evs') \<Rightarrow>
                         if isNull tfPose
                         then (this1\<lparr>odometry :=
                                  reset odo (getPose odo (odometry this1)) (odometry this1)\<rparr>,
                               evs @ evs' @ [NODELET_WARN_reset_to_latest_computed_pose,
                                             Odometry_reset (getPose odo (odometry this1))])
                         else (this1\<lparr>odometry := reset odo tfPose (odometry this1)\<rparr>,
                               evs @ evs' @ [NODELET_WARN_reset_to_pose_from_TF,
                                             Odometry_reset tfPose]))
               else (this1, evs))
      else (this, []))"

text \<open>Lines 577-600: the diagnostics message, if someone listens, and the closing log line.\<close>

definition processData_info :: "'t ROS \<Rightarrow> Time \<Rightarrow> 't event list" where
  "processData_info ros stamp =
     (if odomInfoPub_getNumSubscribers ros \<noteq> 0 then [odomInfoPub_publish stamp] else [])
     @ [NODELET_INFO_Odom]"

definition processData ::
  "('e, 'd, 't::{zero,one,times,inverse}) Odometry \<Rightarrow> 't ROS \<Rightarrow> 'd \<Rightarrow> Time \<Rightarrow> 'e OdometryROS
     \<Rightarrow> 'e OdometryROS \<times> 't event list"
where
  "processData odo ros data stamp this =
     (case processData_init odo ros stamp this of
        (None, evs0) \<Rightarrow> (this, evs0)
      | (Some this1, evs0) \<Rightarrow>
     (case processData_guess odo ros stamp this1 of
        (None, evs1) \<Rightarrow> (this1, evs0 @ evs1)
      | (Some guess, evs1) \<Rightarrow>
     (case process odo data guess (odometry this1) of
        (pose, e) \<Rightarrow>
     (case processData_publish ros stamp pose (this1\<lparr>odometry := e\<rparr>) of
        (this2, evs2) \<Rightarrow>
     (case processData_countdown odo ros stamp pose this2 of
        (this3, evs3) \<Rightarrow>
          (this3, evs0 @ evs1 @ [Odometry_process guess pose] @ evs2 @ evs3
                  @ processData_info ros stamp))))))"

subsection \<open>pause and resume (lines 621-647)\<close>

datatype service_event =
    NODELET_WARN_Already_paused
  | NODELET_INFO_paused
  | NODELET_WARN_Already_running
  | NODELET_INFO_resumed

definition pause :: "'e OdometryROS \<Rightarrow> 'e OdometryROS \<times> service_event list" where
  "pause this =
     (if paused this then (this, [NODELET_WARN_Already_paused])
      else (this\<lparr>paused := True\<rparr>, [NODELET_INFO_paused]))"

definition resume :: "'e OdometryROS \<Rightarrow> 'e OdometryROS \<times> service_event list" where
  "resume this =
     (if \<not> paused this then (this, [NODELET_WARN_Already_running])
      else (this\<lparr>paused := False\<rparr>, [NODELET_INFO_resumed]))"

text \<open>
  Modelled from the spec: the subscriber callbacks that deliver an observation to
  \<^verbatim>\<open>processData\<close> are not in \<^verbatim>\<open>OdometryROS.cpp\<close>. The spec (4.1, pause semantics)
  says of them: "the surrounding collaborator is responsible for not even invoking this
  call while paused".
\<close>

definition callback ::
  "('e, 'd, 't::{zero,one,times,inverse}) Odometry \<Rightarrow> 't ROS \<Rightarrow> 'd \<Rightarrow> Time \<Rightarrow> 'e OdometryROS
     \<Rightarrow> 'e OdometryROS \<times> 't event list"
where
  "callback odo ros data stamp this =
     (if paused this then (this, []) else processData odo ros data stamp this)"

subsection \<open>A stream of observations\<close>

text \<open>
  Observations arrive one after the other, each with the answers the ROS side gives during
  its call. \<open>run step obs this\<close> feeds them to \<open>step\<close> (\<open>processData odo\<close> or
  \<open>callback odo\<close>) and returns the last state and what each call did.
\<close>

fun run ::
  "('r \<Rightarrow> 'd \<Rightarrow> Time \<Rightarrow> 's \<Rightarrow> 's \<times> 'ev list) \<Rightarrow> ('r \<times> 'd \<times> Time) list \<Rightarrow> 's
     \<Rightarrow> 's \<times> 'ev list list"
where
  "run step [] this = (this, [])"
| "run step ((ros, data, stamp) # obs) this =
     (case step ros data stamp this of
        (this1, evs) \<Rightarrow>
          (case run step obs this1 of (this2, trace) \<Rightarrow> (this2, evs # trace)))"


fun is_auto_reset :: "'t event \<Rightarrow> bool" where
  "is_auto_reset NODELET_WARN_reset_to_latest_computed_pose = True"
| "is_auto_reset NODELET_WARN_reset_to_pose_from_TF = True"
| "is_auto_reset _ = False"

text \<open>The message published at lines 532-550 when the odometry is lost.\<close>

definition lost_msg :: "'e OdometryROS \<Rightarrow> Time \<Rightarrow> ('t::zero) Odometry_msg" where
  "lost_msg this stamp =
     \<lparr>header_stamp = stamp, header_frame_id = odomFrameId this, child_frame_id = frameId this,
      pose_pose = 0, pose_covariance = BAD_COVARIANCE\<rparr>"

text \<open>
  What the node relies on from the estimator, and cannot check: \<^verbatim>\<open>reset(pose)\<close> makes
  \<^verbatim>\<open>getPose()\<close> return \<open>pose\<close>; \<^verbatim>\<open>process\<close> leaves \<^verbatim>\<open>getPose()\<close> at the pose it
  returns, and where it was when it returns null.
\<close>

definition Odometry_contract :: "('e, 'd, 't::zero) Odometry \<Rightarrow> bool" where
  "Odometry_contract odo \<longleftrightarrow>
     (\<forall>pose e. getPose odo (reset odo pose e) = pose) \<and>
     (\<forall>data guess e. getPose odo (snd (process odo data guess e)) =
        (if isNull (fst (process odo data guess e)) then getPose odo e
         else fst (process odo data guess e)))"

section \<open>Initialisation (onInit)\<close>

text \<open>
  \<^verbatim>\<open>rtabmap::ParametersMap\<close> is a \<^verbatim>\<open>std::map\<close> from strings to strings: its entries in
  key order, \<^verbatim>\<open>find\<close> is \<open>map_of\<close>.
\<close>

type_synonym ParametersMap = "(string \<times> string) list"

text \<open>
  What the outside answers during \<^verbatim>\<open>onInit\<close>: the four overloads of
  \<^verbatim>\<open>pnh.getParam\<close> that the code calls (\<open>None\<close> when the call returns false), the
  default parameters, the configuration file, the parsed command line
  (\<^verbatim>\<open>Parameters::parseArguments\<close> of \<^verbatim>\<open>getMyArgv()\<close>), the table
  \<^verbatim>\<open>Parameters::getRemovedParameters()\<close> (removed name, whether its value can be carried
  over, new name; in key order), the keys \<^verbatim>\<open>Parameters::kVisMinInliers()\<close> and
  \<^verbatim>\<open>Parameters::kOdomResetCountdown()\<close>, and the conversions of the utility library.
\<close>

record onInit_env =
  getParam_string :: "string \<Rightarrow> string option"
  getParam_bool :: "string \<Rightarrow> bool option"
  getParam_double :: "string \<Rightarrow> rat option"
  getParam_int :: "string \<Rightarrow> int option"
  getDefaultOdometryParameters :: ParametersMap
  UFile_exists :: "string \<Rightarrow> bool"
  readINI :: "string \<Rightarrow> ParametersMap"
  parseArguments :: ParametersMap
  getRemovedParameters :: "(string \<times> bool \<times> string) list"
  kVisMinInliers :: string
  kOdomResetCountdown :: string
  uBool2Str :: "bool \<Rightarrow> string"
  uNumber2Str_double :: "rat \<Rightarrow> string"
  uNumber2Str_int :: "int \<Rightarrow> string"
  uStr2Int :: "string \<Rightarrow> int"

text \<open>\<^verbatim>\<open>pnh.param(name, variable, default)\<close>.\<close>

definition param_string :: "onInit_env \<Rightarrow> string \<Rightarrow> string \<Rightarrow> string" where
  "param_string env name dflt = (case getParam_string env name of Some v \<Rightarrow> v | None \<Rightarrow> dflt)"

definition param_bool :: "onInit_env \<Rightarrow> string \<Rightarrow> bool \<Rightarrow> bool" where
  "param_bool env name dflt = (case getParam_bool env name of Some v \<Rightarrow> v | None \<Rightarrow> dflt)"

definition param_double :: "onInit_env \<Rightarrow> string \<Rightarrow> rat \<Rightarrow> rat" where
  "param_double env name dflt = (case getParam_double env name of Some v \<Rightarrow> v | None \<Rightarrow> dflt)"

subsection \<open>The frames (lines 109-150)\<close>

datatype onInit_event =
    NODELET_WARN_guess_from_tf_is_disabled string
  | NODELET_INFO_Loading_parameters_from string
  | NODELET_ERROR_Config_file_not_found string
  | NODELET_INFO_Setting_odometry_parameter string string
  | NODELET_WARN_min_inliers_must_be_at_least_8
  | NODELET_INFO_Update_odometry_parameter_from_arguments string string
  | NODELET_WARN_Parameter_name_changed string string string
  | NODELET_ERROR_Parameter_does_not_exist_anymore string
  | NODELET_ERROR_Parameter_does_not_exist_anymore_similar string string

text \<open>
  Lines 109-128 and 136-150; \<^verbatim>\<open>initial_pose\<close> and \<^verbatim>\<open>config_path\<close>, read in between,
  do not touch the members.
\<close>

definition onInit_frames :: "onInit_env \<Rightarrow> 'e OdometryROS \<Rightarrow> 'e OdometryROS \<times> onInit_event list" where
  "onInit_frames env this =
     (let this = this\<lparr>frameId := param_string env ''frame_id'' (frameId this)\<rparr>;
          this = this\<lparr>odomFrameId := param_string env ''odom_frame_id'' (odomFrameId this)\<rparr>;
          this = this\<lparr>publishTf := param_bool env ''publish_tf'' (publishTf this)\<rparr>;
          tfPrefix = param_string env ''tf_prefix'' [];
          this = this\<lparr>waitForTransform :=
                   param_bool env ''wait_for_transform'' (waitForTransform this)\<rparr>;
          this = this\<lparr>waitForTransformDuration :=
                   param_double env ''wait_for_transform_duration'' (waitForTransformDuration this)\<rparr>;
          this = this\<lparr>groundTruthFrameId :=
                   param_string env ''ground_truth_frame_id'' (groundTruthFrameId this)\<rparr>;
          this = this\<lparr>publishNullWhenLost :=
                   param_bool env ''publish_null_when_lost'' (publishNullWhenLost this)\<rparr>;
          this = this\<lparr>guessFromTf := param_bool env ''guess_from_tf'' (guessFromTf this)\<rparr>;
          this = this\<lparr>guessFrameId := param_string env ''guess_frame_id'' (frameId this)\<rparr>;
          (this, evs) =
            (if publishTf this \<and> guessFromTf this \<and> guessFrameId this = frameId this
             then (this\<lparr>guessFromTf := False\<rparr>,
                   [NODELET_WARN_guess_from_tf_is_disabled (frameId this)])
             else (this, []));
          this =
            (if tfPrefix \<noteq> []
             then (let this = (if frameId this \<noteq> []
                               then this\<lparr>frameId := tfPrefix @ ''/'' @ frameId this\<rparr> else this);
                       this = (if odomFrameId this \<noteq> []
                               then this\<lparr>odomFrameId := tfPrefix @ ''/'' @ odomFrameId this\<rparr>
                               else this)
                   in if groundTruthFrameId this \<noteq> []
                      then this\<lparr>groundTruthFrameId := tfPrefix @ ''/'' @ groundTruthFrameId this\<rparr>
                      else this)
             else this)
      in (this, evs))"

subsection \<open>The estimator's parameters (lines 170-277)\<close>

text \<open>
  \<^verbatim>\<open>atoi\<close> of the C library, which is \<^verbatim>\<open>(int) strtol(s, NULL, 10)\<close>: white space is
  skipped, then an optional sign and the decimal digits that follow are read; no digit
  gives 0. \<^verbatim>\<open>strtol\<close> stops at \<^verbatim>\<open>LONG_MIN\<close> and \<^verbatim>\<open>LONG_MAX\<close> (64 bits), and the
  conversion to \<^verbatim>\<open>int\<close> keeps the low 32 bits.
\<close>

definition isspace :: "char \<Rightarrow> bool" where
  "isspace c \<longleftrightarrow> c = CHR '' '' \<or> c = CHR 0x09 \<or> c = CHR 0x0A \<or> c = CHR 0x0B \<or> c = CHR 0x0C
                 \<or> c = CHR 0x0D"

definition digit :: "char \<Rightarrow> int option" where
  "digit c = map_of (zip ''0123456789'' [0, 1, 2, 3, 4, 5, 6, 7, 8, 9]) c"

fun atoi_digits :: "int \<Rightarrow> string \<Rightarrow> int" where
  "atoi_digits acc [] = acc"
| "atoi_digits acc (c # cs) =
     (case digit c of None \<Rightarrow> acc | Some d \<Rightarrow> atoi_digits (10 * acc + d) cs)"

definition strtol :: "string \<Rightarrow> int" where
  "strtol s =
     max (- (2 ^ 63)) (min (2 ^ 63 - 1)
       (case dropWhile isspace s of
          [] \<Rightarrow> 0
        | c # cs \<Rightarrow>
            if c = CHR ''-'' then - atoi_digits 0 cs
            else if c = CHR ''+'' then atoi_digits 0 cs
            else atoi_digits 0 (c # cs)))"

definition atoi :: "string \<Rightarrow> int" where
  "atoi s = (strtol s + 2 ^ 31) mod 2 ^ 32 - 2 ^ 31"

text \<open>
  Lines 171-192: the values of the configuration file, for the keys of \<^verbatim>\<open>parameters_\<close>
  only. \<open>configPath\<close> is the path as lines 130-134 leave it (home and current directory
  put in).
\<close>

definition onInit_config ::
  "onInit_env \<Rightarrow> string \<Rightarrow> ParametersMap \<Rightarrow> ParametersMap \<times> onInit_event list"
where
  "onInit_config env configPath parameters =
     (if configPath \<noteq> []
      then if UFile_exists env configPath
           then (map (\<lambda>(key, val).
                        (key, case map_of (readINI env configPath) key of
                                Some v \<Rightarrow> v | None \<Rightarrow> val)) parameters,
                 [NODELET_INFO_Loading_parameters_from configPath])
           else (parameters, [NODELET_ERROR_Config_file_not_found configPath])
      else (parameters, []))"

text \<open>
  Lines 195-224, the body of the loop over \<^verbatim>\<open>parameters_\<close>: the value of the ROS
  parameter of the same name, read as a string, else as a boolean, else as a double, else
  as an integer; then the floor on the minimum of inliers.
\<close>

definition onInit_getParam :: "onInit_env \<Rightarrow> string \<Rightarrow> string option" where
  "onInit_getParam env key =
     (case getParam_string env key of
        Some vStr \<Rightarrow> Some vStr
      | None \<Rightarrow>
     (case getParam_bool env key of
        Some vBool \<Rightarrow> Some (uBool2Str env vBool)
      | None \<Rightarrow>
     (case getParam_double env key of
        Some vDouble \<Rightarrow> Some (uNumber2Str_double env vDouble)
      | None \<Rightarrow>
     (case getParam_int env key of
        Some vInt \<Rightarrow> Some (uNumber2Str_int env vInt)
      | None \<Rightarrow> None))))"

definition onInit_rosparam :: "onInit_env \<Rightarrow> string \<Rightarrow> string \<Rightarrow> string \<times> onInit_event list" where
  "onInit_rosparam env key val =
     (case (case onInit_getParam env key of
              Some v \<Rightarrow> (v, [NODELET_INFO_Setting_odometry_parameter key v])
            | None \<Rightarrow> (val, [])) of
        (val1, evs) \<Rightarrow>
          if key = kVisMinInliers env \<and> atoi val1 < 8
          then (uNumber2Str_int env 8, evs @ [NODELET_WARN_min_inliers_must_be_at_least_8])
          else (val1, evs))"

text \<open>Lines 234-243, the body of the loop over the parsed arguments.\<close>

definition onInit_argument ::
  "string \<times> string \<Rightarrow> ParametersMap \<times> onInit_event list \<Rightarrow> ParametersMap \<times> onInit_event list"
where
  "onInit_argument = (\<lambda>(key, val) (parameters, evs).
     (case map_of parameters key of
        Some _ \<Rightarrow> (AList.update key val parameters,
                   evs @ [NODELET_INFO_Update_odometry_parameter_from_arguments key val])
      | None \<Rightarrow> (parameters, evs)))"

text \<open>Lines 170-243: \<^verbatim>\<open>parameters_\<close> and the log, before the backward compatibility.\<close>

definition onInit_parameters :: "onInit_env \<Rightarrow> string \<Rightarrow> ParametersMap \<times> onInit_event list" where
  "onInit_parameters env configPath =
     (case onInit_config env configPath (getDefaultOdometryParameters env) of
        (parameters, evs0) \<Rightarrow>
          (let entries = map (\<lambda>(key, val). (key, onInit_rosparam env key val)) parameters;
               parameters = map (\<lambda>(key, val, evs). (key, val)) entries;
               evs = evs0 @ concat (map (\<lambda>(key, val, evs). evs) entries)
           in fold onInit_argument (parseArguments env) (parameters, evs)))"

text \<open>
  Lines 245-274, the backward compatibility: for each parameter name that the estimator
  library has removed and that is set as a ROS string parameter, the value is written to
  the parameter that replaces it when the table says it can be carried over.
  \<^verbatim>\<open>parameters_.at(key) = value\<close> throws \<^verbatim>\<open>std::out_of_range\<close> when
  \<^verbatim>\<open>parameters_\<close> has no such key, and nothing catches it.
\<close>

datatype error = out_of_range

definition at_assign :: "string \<Rightarrow> string \<Rightarrow> ParametersMap \<Rightarrow> error + ParametersMap" where
  "at_assign key val parameters =
     (case map_of parameters key of
        None \<Rightarrow> Inl out_of_range
      | Some _ \<Rightarrow> Inr (AList.update key val parameters))"

fun onInit_removed ::
  "onInit_env \<Rightarrow> (string \<times> bool \<times> string) list \<Rightarrow> ParametersMap \<times> onInit_event list
     \<Rightarrow> error + ParametersMap \<times> onInit_event list"
where
  "onInit_removed env [] (parameters, evs) = Inr (parameters, evs)"
| "onInit_removed env ((old, migrate, new) # removed) (parameters, evs) =
     (case getParam_string env old of
        None \<Rightarrow> onInit_removed env removed (parameters, evs)
      | Some vStr \<Rightarrow>
          if migrate
          then (case at_assign new vStr parameters of
                  Inl e \<Rightarrow> Inl e
                | Inr parameters1 \<Rightarrow>
                    onInit_removed env removed
                      (parameters1, evs @ [NODELET_WARN_Parameter_name_changed old new vStr]))
          else onInit_removed env removed
                 (parameters,
                  evs @ [if new = [] then NODELET_ERROR_Parameter_does_not_exist_anymore old
                         else NODELET_ERROR_Parameter_does_not_exist_anymore_similar old new]))"

text \<open>
  Lines 276-277: the node takes the countdown for itself (\<^verbatim>\<open>Parameters::parse\<close> leaves
  \<^verbatim>\<open>resetCountdown_\<close> alone when the key is missing) and the estimator gets 0.
\<close>

definition onInit_resetCountdown ::
  "onInit_env \<Rightarrow> int \<Rightarrow> ParametersMap \<times> onInit_event list
     \<Rightarrow> error + ParametersMap \<times> int \<times> onInit_event list"
where
  "onInit_resetCountdown env resetCountdown0 = (\<lambda>(parameters, evs).
     (let resetCountdown1 =
            (case map_of parameters (kOdomResetCountdown env) of
               Some v \<Rightarrow> uStr2Int env v
             | None \<Rightarrow> resetCountdown0)
      in case at_assign (kOdomResetCountdown env) ''0'' parameters of
           Inl e \<Rightarrow> Inl e
         | Inr parameters1 \<Rightarrow> Inr (parameters1, resetCountdown1, evs)))"

text \<open>
  Lines 170-277: the parameters handed to the estimator (line 281), the node's countdown
  limit and the log; or the exception.
\<close>

definition onInit_estimator_parameters ::
  "onInit_env \<Rightarrow> string \<Rightarrow> int \<Rightarrow> error + ParametersMap \<times> int \<times> onInit_event list"
where
  "onInit_estimator_parameters env configPath resetCountdown0 =
     (case onInit_removed env (getRemovedParameters env) (onInit_parameters env configPath) of
        Inl e \<Rightarrow> Inl e
      | Inr pe \<Rightarrow> onInit_resetCountdown env resetCountdown0 pe)"

text \<open>
  The values that the backward compatibility carries over, with the names they are written
  to, in the order of the loop: a later one replaces an earlier one for the same name.
\<close>

definition carried_over :: "onInit_env \<Rightarrow> (string \<times> bool \<times> string) list \<Rightarrow> ParametersMap" where
  "carried_over env removed =
     concat (map (\<lambda>(old, migrate, new).
                    case getParam_string env old of
                      None \<Rightarrow> []
                    | Some vStr \<Rightarrow> if migrate then [(new, vStr)] else []) removed)"

section \<open>A node to run\<close>

text \<open>The constructor (lines 59-78), around an estimator in state \<open>e\<close>.\<close>

definition OdometryROS_new :: "'e \<Rightarrow> 'e OdometryROS" where
  "OdometryROS_new e =
     \<lparr>odometry = e, frameId = ''base_link'', odomFrameId = ''odom'', groundTruthFrameId = [],
      guessFrameId = [], publishTf = True, waitForTransform = True,
      waitForTransformDuration = 1 / 10, publishNullWhenLost = True, guessFromTf = False,
      paused = False, resetCountdown = 0, resetCurrentCount = 0\<rparr>"

text \<open>
  An estimator for the examples, with one-dimensional poses (rationals: 0 is null, 1 the
  identity): its state is the pose and the previous stamp, and the sensor data is the pose
  that the estimation yields, 0 for a failure.
\<close>

definition scripted :: "(rat \<times> Time, rat, rat) Odometry" where
  "scripted =
     \<lparr>getPose = fst,
      reset = (\<lambda>pose e. (pose, snd e)),
      process = (\<lambda>data guess e. if data = 0 then (0, e) else (data, (data, snd e))),
      previousStamp = snd\<rparr>"

text \<open>
  A second estimator, whose estimation yields the guess it is given (and fails on a null
  guess).
\<close>

definition echo :: "(rat \<times> Time, rat, rat) Odometry" where
  "echo =
     \<lparr>getPose = fst,
      reset = (\<lambda>pose e. (pose, snd e)),
      process = (\<lambda>data guess e. if guess = 0 then (0, e) else (guess, (guess, snd e))),
      previousStamp = snd\<rparr>"

text \<open>
  A ROS side whose listener knows the transforms of \<open>lookup\<close>, with one subscriber to the
  odometry.
\<close>

definition tf_of :: "(string \<Rightarrow> string \<Rightarrow> Time \<Rightarrow> rat option) \<Rightarrow> rat ROS" where
  "tf_of lookup =
     \<lparr>tf_waitForTransform = (\<lambda>a b s. lookup a b s \<noteq> None), tf_lookupTransform = lookup,
      odomPub_getNumSubscribers = 1, odomInfoPub_getNumSubscribers = 0\<rparr>"

definition no_tf :: "rat ROS" where
  "no_tf = tf_of (\<lambda>a b s. None)"

definition tf_at :: "string \<Rightarrow> string \<Rightarrow> Time \<Rightarrow> rat \<Rightarrow> rat ROS" where
  "tf_at fromFrameId toFrameId stamp transform =
     tf_of (\<lambda>a b s. if a = fromFrameId \<and> b = toFrameId \<and> s = stamp then Some transform
                      else None)"

text \<open>
  The node around the scripted estimator at \<open>pose\<close>, with the countdown limit
  (\<^verbatim>\<open>Odom/ResetCountdown\<close>, line 276) and the current count given.
\<close>

definition node :: "rat \<Rightarrow> int \<Rightarrow> int \<Rightarrow> (rat \<times> Time) OdometryROS" where
  "node pose limit count =
     (OdometryROS_new (pose, 0))\<lparr>resetCountdown := limit, resetCurrentCount := count\<rparr>"

text \<open>
  An initialisation to run: the ROS parameters that are set, as strings and as booleans
  (none as a number), the contents of the configuration file \<^verbatim>\<open>/odom.ini\<close>, and the
  parsed command line, over three default parameters and two removed names. Numbers are
  printed in decimal and read by \<^verbatim>\<open>atoi\<close>.
\<close>

fun decimal :: "nat \<Rightarrow> string" where
  "decimal n =
     (if n < 10 then [''0123456789'' ! n]
      else decimal (n div 10) @ [''0123456789'' ! (n mod 10)])"

definition launch ::
  "(string \<times> string) list \<Rightarrow> (string \<times> bool) list \<Rightarrow> ParametersMap \<Rightarrow> ParametersMap \<Rightarrow> onInit_env"
where
  "launch strings bools ini arguments =
     \<lparr>getParam_string = map_of strings, getParam_bool = map_of bools,
      getParam_double = (\<lambda>name. None), getParam_int = (\<lambda>name. None),
      getDefaultOdometryParameters =
        [(''Odom/ResetCountdown'', ''0''), (''Odom/Strategy'', ''0''), (''Vis/MinInliers'', ''20'')],
      UFile_exists = (\<lambda>path. path = ''/odom.ini''), readINI = (\<lambda>path. ini),
      parseArguments = arguments,
      getRemovedParameters =
        [(''Odom/MinInliers'', True, ''Vis/MinInliers''), (''Odom/Type'', False, ''Odom/Strategy'')],
      kVisMinInliers = ''Vis/MinInliers'', kOdomResetCountdown = ''Odom/ResetCountdown'',
      uBool2Str = (\<lambda>b. if b then ''true'' else ''false''),
      uNumber2Str_double = (\<lambda>d. decimal (nat \<lfloor>d\<rfloor>)),
      uNumber2Str_int = (\<lambda>i. decimal (nat i)), uStr2Int = atoi\<rparr>"

section \<open>Properties of processData\<close>

subsection \<open>What each part of processData logs\<close>

lemma getTransform_events:
  "ev \<in> set (snd (getTransform this ros a b s)) \<Longrightarrow>
     ev = NODELET_WARN_Could_not_get_transform a b s \<or> ev = NODELET_WARN_TransformException a b s"
  by (auto simp: getTransform_def split: if_splits option.splits)

lemma getTransform_failed:
  "isNull (fst (getTransform this ros a b s)) \<Longrightarrow>
     snd (getTransform this ros a b s) = [NODELET_WARN_Could_not_get_transform a b s]
   \<or> snd (getTransform this ros a b s) = [NODELET_WARN_TransformException a b s]
   \<or> snd (getTransform this ros a b s) = []"
  by (auto simp: getTransform_def split: if_splits option.splits)

lemma getTransform_odometry [simp]:
  "getTransform (this\<lparr>odometry := e\<rparr>) ros a b s = getTransform this ros a b s"
  by (simp add: getTransform_def)

lemma getTransform_resetCurrentCount [simp]:
  "getTransform (this\<lparr>resetCurrentCount := n\<rparr>) ros a b s = getTransform this ros a b s"
  by (simp add: getTransform_def)

lemma getTransform_no_estimation [simp]:
  "getTransform this ros a b s = (t, evs) \<Longrightarrow> Odometry_process g p \<notin> set evs"
  using getTransform_events [of "Odometry_process g p" this ros a b s] by auto

lemma getTransform_no_publish [simp]:
  "getTransform this ros a b s = (t, evs) \<Longrightarrow> odomPub_publish m \<notin> set evs"
  using getTransform_events [of "odomPub_publish m" this ros a b s] by auto

lemma getTransform_no_auto_reset [simp]:
  "getTransform this ros a b s = (t, evs) \<Longrightarrow> \<not> list_ex is_auto_reset evs"
  using getTransform_events [of _ this ros a b s] by (fastforce simp: list_ex_iff)

lemma init_no_estimation [simp]:
  "processData_init odo ros stamp this = (r, evs) \<Longrightarrow> Odometry_process g p \<notin> set evs"
  by (auto simp: processData_init_def split: if_splits prod.splits)

lemma guess_no_estimation [simp]:
  "processData_guess odo ros stamp this = (r, evs) \<Longrightarrow> Odometry_process g p \<notin> set evs"
  by (auto simp: processData_guess_def split: if_splits prod.splits)

lemma publish_no_estimation [simp]:
  "Odometry_process g p \<notin> set (snd (processData_publish ros stamp pose this))"
  by (auto simp: processData_publish_def)

lemma countdown_no_estimation [simp]:
  "Odometry_process g p \<notin> set (snd (processData_countdown odo ros stamp pose this))"
  by (auto simp: processData_countdown_def Let_def split: prod.splits)

lemma info_no_estimation [simp]:
  "Odometry_process g p \<notin> set (processData_info ros stamp)"
  by (auto simp: processData_info_def)

lemma init_no_publish [simp]:
  "processData_init odo ros stamp this = (r, evs) \<Longrightarrow> odomPub_publish m \<notin> set evs"
  by (auto simp: processData_init_def split: if_splits prod.splits)

lemma guess_no_publish [simp]:
  "processData_guess odo ros stamp this = (r, evs) \<Longrightarrow> odomPub_publish m \<notin> set evs"
  by (auto simp: processData_guess_def split: if_splits prod.splits)

lemma countdown_no_publish [simp]:
  "odomPub_publish m \<notin> set (snd (processData_countdown odo ros stamp pose this))"
  by (auto simp: processData_countdown_def Let_def split: prod.splits)

lemma info_no_publish [simp]:
  "odomPub_publish m \<notin> set (processData_info ros stamp)"
  by (auto simp: processData_info_def)

lemma init_no_auto_reset [simp]:
  "processData_init odo ros stamp this = (r, evs) \<Longrightarrow> \<not> list_ex is_auto_reset evs"
  by (auto simp: processData_init_def split: if_splits prod.splits)

lemma guess_no_auto_reset [simp]:
  "processData_guess odo ros stamp this = (r, evs) \<Longrightarrow> \<not> list_ex is_auto_reset evs"
  by (auto simp: processData_guess_def split: if_splits prod.splits)

lemma publish_no_auto_reset [simp]:
  "\<not> list_ex is_auto_reset (snd (processData_publish ros stamp pose this))"
  by (auto simp: processData_publish_def)

lemma info_no_auto_reset [simp]:
  "\<not> list_ex is_auto_reset (processData_info ros stamp)"
  by (auto simp: processData_info_def)

lemma getTransform_no_reset [simp]:
  "getTransform this ros a b s = (t, evs) \<Longrightarrow> Odometry_reset p \<notin> set evs"
  using getTransform_events [of "Odometry_reset p" this ros a b s] by auto

lemma guess_no_reset [simp]:
  "processData_guess odo ros stamp this = (r, evs) \<Longrightarrow> Odometry_reset p \<notin> set evs"
  by (auto simp: processData_guess_def split: if_splits prod.splits)

lemma publish_no_reset [simp]:
  "Odometry_reset p \<notin> set (snd (processData_publish ros stamp pose this))"
  by (auto simp: processData_publish_def)

lemma info_no_reset [simp]:
  "Odometry_reset p \<notin> set (processData_info ros stamp)"
  by (auto simp: processData_info_def)

subsection \<open>The parts of processData\<close>

lemma init_Some:
  "processData_init odo ros stamp this = (Some this1, evs) \<Longrightarrow> \<exists>e. this1 = this\<lparr>odometry := e\<rparr>"
  by (auto simp: processData_init_def split: if_splits prod.splits intro: exI [of _ "odometry this"])

lemma publish_valid:
  "\<not> isNull pose \<Longrightarrow>
     fst (processData_publish ros stamp pose this) = this\<lparr>resetCurrentCount := resetCountdown this\<rparr>"
  by (simp add: processData_publish_def)

lemma publish_null:
  "isNull pose \<Longrightarrow> processData_publish ros stamp pose this =
      (this, if publishNullWhenLost this then [odomPub_publish (lost_msg this stamp)] else [])"
  by (simp add: processData_publish_def lost_msg_def)

lemma countdown_valid:
  "\<not> isNull pose \<Longrightarrow> processData_countdown odo ros stamp pose this = (this, [])"
  by (simp add: processData_countdown_def)

lemma countdown_not_tripped:
  "\<not> list_ex is_auto_reset (snd (processData_countdown odo ros stamp pose this)) \<Longrightarrow>
     odometry (fst (processData_countdown odo ros stamp pose this)) = odometry this"
  by (auto simp: processData_countdown_def Let_def split: prod.splits if_splits)

lemma processData_continue:
  assumes "processData_init odo ros stamp this = (Some this1, evs0)"
      and "processData_guess odo ros stamp this1 = (Some guess, evs1)"
      and "process odo data guess (odometry this1) = (pose, e)"
  shows "processData odo ros data stamp this =
           (fst (processData_countdown odo ros stamp pose
                   (fst (processData_publish ros stamp pose (this1\<lparr>odometry := e\<rparr>)))),
            evs0 @ evs1 @ [Odometry_process guess pose]
              @ snd (processData_publish ros stamp pose (this1\<lparr>odometry := e\<rparr>))
              @ snd (processData_countdown odo ros stamp pose
                   (fst (processData_publish ros stamp pose (this1\<lparr>odometry := e\<rparr>))))
              @ processData_info ros stamp)"
  using assms by (simp add: processData_def split: prod.splits)

lemma processData_estimated:
  assumes "Odometry_process g p \<in> set (snd (processData odo ros data stamp this))"
  shows "\<exists>this1 evs0 evs1 e.
           processData_init odo ros stamp this = (Some this1, evs0)
         \<and> processData_guess odo ros stamp this1 = (Some g, evs1)
         \<and> process odo data g (odometry this1) = (p, e)"
proof -
  obtain r0 evs0 where i: "processData_init odo ros stamp this = (r0, evs0)"
    by (cases "processData_init odo ros stamp this")
  show ?thesis
  proof (cases r0)
    case None
    with i assms show ?thesis by (simp add: processData_def)
  next
    case (Some this1)
    obtain r1 evs1 where g: "processData_guess odo ros stamp this1 = (r1, evs1)"
      by (cases "processData_guess odo ros stamp this1")
    show ?thesis
    proof (cases r1)
      case None
      with i Some g assms show ?thesis by (simp add: processData_def)
    next
      case (Some guess)
      obtain pose e where p: "process odo data guess (odometry this1) = (pose, e)"
        by (cases "process odo data guess (odometry this1)")
      from i \<open>r0 = Some this1\<close> g Some p assms
      have "g = guess \<and> p = pose"
        by (simp add: processData_continue [of odo ros stamp this this1 evs0 guess evs1 data pose e])
      with i \<open>r0 = Some this1\<close> g Some p show ?thesis by auto
    qed
  qed
qed

lemma contract_process:
  assumes "Odometry_contract odo" and "process odo data guess e0 = (pose, e)"
  shows "getPose odo e = (if isNull pose then getPose odo e0 else pose)"
proof -
  from assms(1) have "getPose odo (snd (process odo data guess e0)) =
        (if isNull (fst (process odo data guess e0)) then getPose odo e0
         else fst (process odo data guess e0))"
    unfolding Odometry_contract_def by blast
  with assms(2) show ?thesis by simp
qed

lemma contract_reset: "Odometry_contract odo \<Longrightarrow> getPose odo (reset odo pose e) = pose"
  by (simp add: Odometry_contract_def)

lemma scripted_contract: "Odometry_contract scripted"
  by (simp add: Odometry_contract_def scripted_def isNull_def)

lemmas run_defs = processData_def processData_init_def processData_guess_def
  processData_publish_def processData_countdown_def processData_info_def getTransform_def
  isNull_def isIdentity_def OdometryROS_new_def scripted_def echo_def tf_of_def no_tf_def
  tf_at_def
  lost_msg_def node_def

lemma success_step:
  assumes "Odometry_process guess pose \<in> set (snd (processData odo ros data stamp this))"
      and "\<not> isNull pose"
  shows "resetCurrentCount (fst (processData odo ros data stamp this)) = resetCountdown this
       \<and> (Odometry_contract odo \<longrightarrow>
            getPose odo (odometry (fst (processData odo ros data stamp this))) = pose)"
proof -
  obtain this1 evs0 evs1 e where
      i: "processData_init odo ros stamp this = (Some this1, evs0)"
    and g: "processData_guess odo ros stamp this1 = (Some guess, evs1)"
    and p: "process odo data guess (odometry this1) = (pose, e)"
    using processData_estimated [OF assms(1)] by auto
  from init_Some [OF i] have c: "resetCountdown this1 = resetCountdown this"
    by auto
  have r: "fst (processData odo ros data stamp this)
             = this1\<lparr>odometry := e, resetCurrentCount := resetCountdown this1\<rparr>"
    using assms(2) by (simp add: processData_continue [OF i g p] publish_valid countdown_valid)
  have "Odometry_contract odo \<Longrightarrow> getPose odo e = pose"
    using contract_process [OF _ p] assms(2) by simp
  with r c show ?thesis by simp
qed

text \<open>
  \<^bold>\<open>C3.\<close> In a call where the estimator returns a pose that is not null, the current count
  is set to the countdown limit, whatever it was, and (for an estimator that keeps the pose
  it returns) the current pose is the returned pose.
\<close>

theorem estimation_success:
  assumes "Odometry_process guess pose \<in> set (snd (processData odo ros data stamp this))"
      and "\<not> isNull pose"
  shows "resetCurrentCount (fst (processData odo ros data stamp this)) = resetCountdown this
       \<and> (Odometry_contract odo \<longrightarrow>
            getPose odo (odometry (fst (processData odo ros data stamp this))) = pose)"
  using assms by (rule success_step)

theorem estimation_success_witness:
  "Odometry_process 0 2 \<in> set (snd (processData scripted no_tf 2 10
      (node 1 3 0)))
   \<and> \<not> isNull (2::rat)
   \<and> resetCurrentCount (fst (processData scripted no_tf 2 10
      (node 1 3 0))) = 3
   \<and> Odometry_contract scripted
   \<and> getPose scripted (odometry (fst (processData scripted no_tf 2 10
      (node 1 3 0)))) = 2"
proof -
  have h1: "Odometry_process 0 2 \<in> set (snd (processData scripted no_tf 2 10
      (node 1 3 0)))"
    by (simp add: run_defs)
  have h2: "\<not> isNull (2::rat)" by (simp add: isNull_def)
  from estimation_success [OF h1 h2] scripted_contract h1 h2 show ?thesis
    by (simp add: node_def)
qed

lemma init_cases:
  "processData_init odo ros stamp this = (Some this1, evs0) \<Longrightarrow>
     odometry this1 =
       (if isIdentity (getPose odo (odometry this)) \<and> groundTruthFrameId this \<noteq> []
        then reset odo (fst (getTransform this ros (groundTruthFrameId this) (frameId this) stamp))
               (odometry this)
        else odometry this)"
  by (auto simp: processData_init_def split: if_splits prod.splits)

text \<open>
  \<^bold>\<open>C4.\<close> In a call where the estimator returns a null pose, the only message published
  on the odometry topic is the null pose with \<^verbatim>\<open>BAD_COVARIANCE\<close>, published exactly
  when \<^verbatim>\<open>publish_null_when_lost\<close> is set. Unless the countdown trips in this call, the
  estimator is left as \<^verbatim>\<open>process\<close> left it, and \<^verbatim>\<open>process\<close> was called on the
  state before the call, or, when the pose before the call is the identity and a
  ground-truth frame is set, on that state reset to the ground-truth transform (lines
  331-346). So, for an estimator that keeps its pose on a failure, the pose after the call
  is the ground-truth transform in the second case, and the pose before the call in the
  first.
\<close>

theorem estimation_failure:
  assumes "Odometry_process guess pose \<in> set (snd (processData odo ros data stamp this))"
      and "isNull pose"
  shows "(\<forall>msg. odomPub_publish msg \<in> set (snd (processData odo ros data stamp this))
            \<longleftrightarrow> publishNullWhenLost this \<and> msg = lost_msg this stamp)
       \<and> (\<not> list_ex is_auto_reset (snd (processData odo ros data stamp this)) \<longrightarrow>
            (if isIdentity (getPose odo (odometry this)) \<and> groundTruthFrameId this \<noteq> []
             then odometry (fst (processData odo ros data stamp this))
                    = snd (process odo data guess
                             (reset odo (fst (getTransform this ros (groundTruthFrameId this)
                                                (frameId this) stamp))
                                (odometry this)))
                \<and> (Odometry_contract odo \<longrightarrow>
                     getPose odo (odometry (fst (processData odo ros data stamp this)))
                       = fst (getTransform this ros (groundTruthFrameId this) (frameId this) stamp))
             else odometry (fst (processData odo ros data stamp this))
                    = snd (process odo data guess (odometry this))
                \<and> (Odometry_contract odo \<longrightarrow>
                     getPose odo (odometry (fst (processData odo ros data stamp this)))
                       = getPose odo (odometry this))))"
proof -
  obtain this1 evs0 evs1 e where
      i: "processData_init odo ros stamp this = (Some this1, evs0)"
    and g: "processData_guess odo ros stamp this1 = (Some guess, evs1)"
    and p: "process odo data guess (odometry this1) = (pose, e)"
    using processData_estimated [OF assms(1)] by auto
  from init_Some [OF i] have f: "publishNullWhenLost this1 = publishNullWhenLost this"
          "lost_msg this1 stamp = (lost_msg this stamp :: 'a Odometry_msg)"
    by (auto simp: lost_msg_def)
  note pd = processData_continue [OF i g p]
  have A: "\<forall>msg. odomPub_publish msg \<in> set (snd (processData odo ros data stamp this))
            \<longleftrightarrow> publishNullWhenLost this \<and> msg = lost_msg this stamp"
    using i g assms(2) f by (auto simp: pd publish_null lost_msg_def)
  have B: "odometry (fst (processData odo ros data stamp this)) = e"
    if "\<not> list_ex is_auto_reset (snd (processData odo ros data stamp this))"
  proof -
    from that have "\<not> list_ex is_auto_reset
        (snd (processData_countdown odo ros stamp pose (this1\<lparr>odometry := e\<rparr>)))"
      using assms(2) by (simp add: pd publish_null)
    from countdown_not_tripped [OF this] show ?thesis
      using assms(2) by (simp add: pd publish_null)
  qed
  have C: "Odometry_contract odo \<Longrightarrow> getPose odo e = getPose odo (odometry this1)"
    using contract_process [OF _ p] assms(2) by simp
  have E: "e = snd (process odo data guess (odometry this1))"
    using p by simp
  show ?thesis
  proof (cases "isIdentity (getPose odo (odometry this)) \<and> groundTruthFrameId this \<noteq> []")
    case True
    with init_cases [OF i]
    have o: "odometry this1 = reset odo (fst (getTransform this ros (groundTruthFrameId this)
                                                (frameId this) stamp)) (odometry this)"
      by simp
    have "Odometry_contract odo \<Longrightarrow> getPose odo e
            = fst (getTransform this ros (groundTruthFrameId this) (frameId this) stamp)"
      using C by (simp add: o contract_reset)
    with A B E show ?thesis
      unfolding if_P [OF True] o by simp
  next
    case False
    with init_cases [OF i] have o: "odometry this1 = odometry this"
      by simp
    from A B C E show ?thesis
      unfolding if_not_P [OF False] o by simp
  qed
qed

theorem estimation_failure_witness:
  "Odometry_process 0 0 \<in> set (snd (processData scripted no_tf 0 10 (node 5 3 3)))
   \<and> isNull (0::rat)
   \<and> publishNullWhenLost (node 5 3 3)
   \<and> odomPub_publish \<lparr>header_stamp = 10, header_frame_id = ''odom'', child_frame_id = ''base_link'',
        pose_pose = 0, pose_covariance = BAD_COVARIANCE\<rparr>
        \<in> set (snd (processData scripted no_tf 0 10 (node 5 3 3)))
   \<and> \<not> list_ex is_auto_reset (snd (processData scripted no_tf 0 10 (node 5 3 3)))
   \<and> \<not> (isIdentity (getPose scripted (odometry (node 5 3 3))) \<and> groundTruthFrameId (node 5 3 3) \<noteq> [])
   \<and> Odometry_contract scripted
   \<and> odometry (fst (processData scripted no_tf 0 10 (node 5 3 3))) = (5, 0)
   \<and> getPose scripted (odometry (fst (processData scripted no_tf 0 10 (node 5 3 3)))) = 5
   \<and> Odometry_process 0 0 \<in> set (snd (processData scripted (tf_at ''world'' ''base_link'' 10 7) 0 10
        ((node 1 3 3)\<lparr>groundTruthFrameId := ''world''\<rparr>)))
   \<and> \<not> list_ex is_auto_reset (snd (processData scripted (tf_at ''world'' ''base_link'' 10 7) 0 10
        ((node 1 3 3)\<lparr>groundTruthFrameId := ''world''\<rparr>)))
   \<and> (isIdentity (getPose scripted (odometry ((node 1 3 3)\<lparr>groundTruthFrameId := ''world''\<rparr>)))
        \<and> groundTruthFrameId ((node 1 3 3)\<lparr>groundTruthFrameId := ''world''\<rparr>) \<noteq> [])
   \<and> getPose scripted (odometry (fst (processData scripted (tf_at ''world'' ''base_link'' 10 7) 0 10
        ((node 1 3 3)\<lparr>groundTruthFrameId := ''world''\<rparr>)))) = 7"
proof -
  let ?n = "node 5 3 3"
  let ?m = "(node 1 3 3)\<lparr>groundTruthFrameId := ''world''\<rparr>"
  let ?tf = "tf_at ''world'' ''base_link'' 10 7"
  have h1: "Odometry_process 0 0 \<in> set (snd (processData scripted no_tf 0 10 ?n))"
    and h3: "\<not> list_ex is_auto_reset (snd (processData scripted no_tf 0 10 ?n))"
    and h5: "publishNullWhenLost ?n"
    and h6: "\<not> (isIdentity (getPose scripted (odometry ?n)) \<and> groundTruthFrameId ?n \<noteq> [])"
    by (simp_all add: run_defs)
  have h2: "isNull (0::rat)"
    by (simp add: isNull_def)
  have m1: "Odometry_process 0 0 \<in> set (snd (processData scripted ?tf 0 10 ?m))"
    and m3: "\<not> list_ex is_auto_reset (snd (processData scripted ?tf 0 10 ?m))"
    and m6: "isIdentity (getPose scripted (odometry ?m)) \<and> groundTruthFrameId ?m \<noteq> []"
    by (simp_all add: run_defs)
  have G: "fst (getTransform ?m ?tf (groundTruthFrameId ?m) (frameId ?m) 10) = 7"
    by (simp add: run_defs)
  have v: "snd (process scripted 0 0 (odometry ?n)) = (5, 0)"
    and g: "getPose scripted (odometry ?n) = 5"
    by (simp_all add: scripted_def node_def OdometryROS_new_def)
  note T = estimation_failure [OF h1 h2]
  note U = estimation_failure [OF m1 h2]
  from T [THEN conjunct1] h5
  have a: "odomPub_publish (lost_msg ?n 10) \<in> set (snd (processData scripted no_tf 0 10 ?n))"
    by blast
  note T2 = T [THEN conjunct2, rule_format, OF h3, unfolded if_not_P [OF h6], unfolded v g]
  note U2 = U [THEN conjunct2, rule_format, OF m3, unfolded if_P [OF m6], unfolded G]
  from T2 scripted_contract
  have b: "odometry (fst (processData scripted no_tf 0 10 ?n)) = (5, 0)"
    and c: "getPose scripted (odometry (fst (processData scripted no_tf 0 10 ?n))) = 5"
    by blast+
  from U2 scripted_contract
  have d: "getPose scripted (odometry (fst (processData scripted ?tf 0 10 ?m))) = 7"
    by blast
  have l: "lost_msg ?n 10 = \<lparr>header_stamp = 10, header_frame_id = ''odom'',
             child_frame_id = ''base_link'', pose_pose = (0::rat), pose_covariance = BAD_COVARIANCE\<rparr>"
    by (simp add: lost_msg_def node_def OdometryROS_new_def)
  show ?thesis
    by (intro conjI h1 h2 h5 a [unfolded l] h3 h6 scripted_contract b c m1 m3
          m6 [THEN conjunct1] m6 [THEN conjunct2] d)
qed

text \<open>
  \<^bold>\<open>C4.\<close> A failed estimation in the call that synchronises with the ground truth: the
  pose before the call is the identity, the ground-truth transform is 7, the estimator
  returns the null pose and the countdown, at 3, does not trip. The pose after the call
  is 7.
\<close>

theorem failure_after_ground_truth:
  "processData scripted (tf_at ''world'' ''base_link'' 10 7) 0 10
     ((node 1 3 3)\<lparr>groundTruthFrameId := ''world''\<rparr>)
   = ((node 7 3 2)\<lparr>groundTruthFrameId := ''world''\<rparr>,
      [NODELET_INFO_Initializing_odometry_pose 7, Odometry_reset 7, Odometry_process 0 0,
       odomPub_publish (lost_msg (node 1 3 3) 10), NODELET_WARN_Odometry_lost 3,
       NODELET_INFO_Odom])
   \<and> getPose scripted (odometry ((node 1 3 3)\<lparr>groundTruthFrameId := ''world''\<rparr>)) = 1
   \<and> getPose scripted (odometry ((node 7 3 2)\<lparr>groundTruthFrameId := ''world''\<rparr>)) = 7"
  by (simp add: run_defs)

text \<open>
  \<^bold>\<open>C7.\<close> In a call that finds the current pose at the identity with a ground-truth frame
  configured: if the transform from that frame to the sensor frame at the stamp is null,
  the call returns the node unchanged, having logged at most the warning of the lookup (no
  call of the estimator, nothing published); otherwise the estimator is reset to that
  transform first, any estimation of this call runs on the estimator so reset, and a call
  that ends without an estimation leaves the node with the estimator so reset.
\<close>

theorem ground_truth_bootstrap:
  assumes "isIdentity (getPose odo (odometry this))" and "groundTruthFrameId this \<noteq> []"
  shows "case getTransform this ros (groundTruthFrameId this) (frameId this) stamp of
           (initialPose, evs) \<Rightarrow>
             if isNull initialPose
             then processData odo ros data stamp this = (this, evs)
                \<and> (evs = [NODELET_WARN_Could_not_get_transform
                            (groundTruthFrameId this) (frameId this) stamp]
                   \<or> evs = [NODELET_WARN_TransformException
                            (groundTruthFrameId this) (frameId this) stamp]
                   \<or> evs = [])
             else (\<exists>rest. snd (processData odo ros data stamp this)
                       = evs @ [NODELET_INFO_Initializing_odometry_pose initialPose,
                                Odometry_reset initialPose] @ rest)
                \<and> (\<forall>guess pose.
                      Odometry_process guess pose \<in> set (snd (processData odo ros data stamp this))
                      \<longrightarrow> pose = fst (process odo data guess
                                         (reset odo initialPose (odometry this))))
                \<and> ((\<forall>guess pose.
                       Odometry_process guess pose \<notin> set (snd (processData odo ros data stamp this)))
                    \<longrightarrow> fst (processData odo ros data stamp this)
                          = this\<lparr>odometry := reset odo initialPose (odometry this)\<rparr>)"
proof -
  obtain initialPose evs where
    t: "getTransform this ros (groundTruthFrameId this) (frameId this) stamp = (initialPose, evs)"
    by (cases "getTransform this ros (groundTruthFrameId this) (frameId this) stamp")
  show ?thesis
  proof (cases "isNull initialPose")
    case True
    with assms t have "processData_init odo ros stamp this = (None, evs)"
      by (simp add: processData_init_def)
    then have "processData odo ros data stamp this = (this, evs)"
      by (simp add: processData_def)
    moreover from getTransform_failed [of this ros "groundTruthFrameId this" "frameId this" stamp]
      True t
    have "evs = [NODELET_WARN_Could_not_get_transform (groundTruthFrameId this) (frameId this) stamp]
        \<or> evs = [NODELET_WARN_TransformException (groundTruthFrameId this) (frameId this) stamp]
        \<or> evs = []"
      by simp
    ultimately show ?thesis using t True by simp
  next
    case False
    let ?node1 = "this\<lparr>odometry := reset odo initialPose (odometry this)\<rparr>"
    let ?evs0 = "evs @ [NODELET_INFO_Initializing_odometry_pose initialPose,
                        Odometry_reset initialPose]"
    from assms t False have i: "processData_init odo ros stamp this = (Some ?node1, ?evs0)"
      by (simp add: processData_init_def)
    have A: "\<exists>rest. snd (processData odo ros data stamp this) = ?evs0 @ rest"
      using i by (auto simp: processData_def split: prod.splits option.splits)
    have B: "pose = fst (process odo data guess (reset odo initialPose (odometry this)))"
      if "Odometry_process guess pose \<in> set (snd (processData odo ros data stamp this))"
      for guess pose
      using processData_estimated [OF that] i by auto
    have C: "fst (processData odo ros data stamp this) = ?node1"
      if "\<forall>guess pose.
            Odometry_process guess pose \<notin> set (snd (processData odo ros data stamp this))"
      using that i by (auto simp: processData_def split: prod.splits option.splits)
    from A B C t False show ?thesis by simp
  qed
qed

theorem ground_truth_bootstrap_witness:
  "isIdentity (getPose scripted (odometry ((node 1 3 3)\<lparr>groundTruthFrameId := ''world''\<rparr>)))
   \<and> groundTruthFrameId ((node 1 3 3)\<lparr>groundTruthFrameId := ''world''\<rparr>) \<noteq> []
   \<and> processData scripted no_tf 2 10 ((node 1 3 3)\<lparr>groundTruthFrameId := ''world''\<rparr>)
       = ((node 1 3 3)\<lparr>groundTruthFrameId := ''world''\<rparr>,
          [NODELET_WARN_Could_not_get_transform ''world'' ''base_link'' 10])
   \<and> Odometry_process 0 2 \<in> set (snd (processData scripted
         (tf_of (\<lambda>a b s. if a = ''world'' \<and> b = ''base_link'' \<and> s = 10 then Some 7 else None))
         2 10 ((node 1 3 3)\<lparr>groundTruthFrameId := ''world''\<rparr>)))
   \<and> 2 = fst (process scripted 2 0 (reset scripted 7 (1, 0)))
   \<and> (\<forall>guess pose. Odometry_process guess pose \<notin> set (snd (processData scripted
         (tf_of (\<lambda>a b s. if a = ''world'' \<and> b = ''base_link'' \<and> s = 10 then Some 7 else None))
         2 10 ((node 1 3 3)\<lparr>groundTruthFrameId := ''world'', guessFromTf := True\<rparr>))))
   \<and> fst (processData scripted
         (tf_of (\<lambda>a b s. if a = ''world'' \<and> b = ''base_link'' \<and> s = 10 then Some 7 else None))
         2 10 ((node 1 3 3)\<lparr>groundTruthFrameId := ''world'', guessFromTf := True\<rparr>))
       = (node 7 3 3)\<lparr>groundTruthFrameId := ''world'', guessFromTf := True\<rparr>"
proof -
  let ?n = "(node 1 3 3)\<lparr>groundTruthFrameId := ''world''\<rparr>"
  let ?g = "(node 1 3 3)\<lparr>groundTruthFrameId := ''world'', guessFromTf := True\<rparr>"
  let ?tf = "tf_of (\<lambda>a b s. if a = ''world'' \<and> b = ''base_link'' \<and> s = 10 then Some (7::rat) else None)"
  have n1: "isIdentity (getPose scripted (odometry ?n))" and n2: "groundTruthFrameId ?n \<noteq> []"
    by (simp_all add: run_defs)
  have g1: "isIdentity (getPose scripted (odometry ?g))" and g2: "groundTruthFrameId ?g \<noteq> []"
    by (simp_all add: run_defs)
  have t0: "getTransform ?n no_tf (groundTruthFrameId ?n) (frameId ?n) 10
              = (0, [NODELET_WARN_Could_not_get_transform ''world'' ''base_link'' 10])"
    by (simp add: run_defs)
  have t1: "getTransform ?n ?tf (groundTruthFrameId ?n) (frameId ?n) 10 = (7, [])"
    by (simp add: run_defs)
  have t2: "getTransform ?g ?tf (groundTruthFrameId ?g) (frameId ?g) 10 = (7, [])"
    by (simp add: run_defs)
  have e1: "Odometry_process 0 2 \<in> set (snd (processData scripted ?tf 2 10 ?n))"
    by (simp add: run_defs)
  have e2: "\<forall>guess pose. Odometry_process guess pose \<notin> set (snd (processData scripted ?tf 2 10 ?g))"
    by (simp add: run_defs)
  have z: "isNull (0::rat)" and nz: "\<not> isNull (7::rat)"
    by (simp_all add: isNull_def)
  note A = ground_truth_bootstrap [OF n1 n2, where ros = no_tf and stamp = 10 and data = 2,
             unfolded t0 prod.case if_P [OF z]]
  note B = ground_truth_bootstrap [OF n1 n2, where ros = ?tf and stamp = 10 and data = 2,
             unfolded t1 prod.case if_not_P [OF nz]]
  note C = ground_truth_bootstrap [OF g1 g2, where ros = ?tf and stamp = 10 and data = 2,
             unfolded t2 prod.case if_not_P [OF nz]]
  from A have a: "processData scripted no_tf 2 10 ?n
             = (?n, [NODELET_WARN_Could_not_get_transform ''world'' ''base_link'' 10])"
    by (rule conjunct1)
  from B e1 have b: "2 = fst (process scripted 2 0 (reset scripted 7 (odometry ?n)))"
    by blast
  from C e2 have c: "fst (processData scripted ?tf 2 10 ?g)
                       = ?g\<lparr>odometry := reset scripted 7 (odometry ?g)\<rparr>"
    by blast
  have o: "odometry ?n = (1, 0)"
    by (simp add: node_def OdometryROS_new_def)
  have r: "?g\<lparr>odometry := reset scripted 7 (odometry ?g)\<rparr>
             = (node 7 3 3)\<lparr>groundTruthFrameId := ''world'', guessFromTf := True\<rparr>"
    by (simp add: node_def OdometryROS_new_def scripted_def)
  show ?thesis
    by (intro conjI n1 n2 a e1 b [unfolded o] e2 c [unfolded r])
qed

text \<open>
  \<^bold>\<open>C2.\<close> With \<^verbatim>\<open>guess_from_tf\<close> set, in a call that gets past the synchronisation
  with the ground truth: let \<open>previousPose\<close> and \<open>pose\<close> be the transforms from the
  odometry frame to the guess frame at the estimator's previous stamp and at the stamp of
  the observation. If neither is null, the estimator is called, and only with the guess
  \<open>inverse previousPose * pose\<close>: the call goes on with the pose and the estimator state
  that \<^verbatim>\<open>process\<close> returns for this guess, and on a non null pose this state is the
  estimator's after the call. Otherwise the call ends there with the error logged last,
  and the estimator is not called.
\<close>

theorem guess_from_tf:
  assumes "guessFromTf this" and "processData_init odo ros stamp this = (Some this1, evs0)"
  shows "case getTransform this ros (odomFrameId this) (guessFrameId this)
                (previousStamp odo (odometry this1)) of
           (previousPose, evs1) \<Rightarrow>
         case getTransform this ros (odomFrameId this) (guessFrameId this) stamp of
           (pose, evs2) \<Rightarrow>
             if \<not> isNull previousPose \<and> \<not> isNull pose
             then (\<exists>p. Odometry_process (inverse previousPose * pose) p
                         \<in> set (snd (processData odo ros data stamp this)))
                \<and> (\<forall>g p. Odometry_process g p \<in> set (snd (processData odo ros data stamp this))
                      \<longrightarrow> g = inverse previousPose * pose)
                \<and> (case process odo data (inverse previousPose * pose) (odometry this1) of
                      (p, e) \<Rightarrow>
                        processData odo ros data stamp this =
                          (fst (processData_countdown odo ros stamp p
                                  (fst (processData_publish ros stamp p (this1\<lparr>odometry := e\<rparr>)))),
                           evs0 @ evs1 @ evs2 @ [Odometry_process (inverse previousPose * pose) p]
                             @ snd (processData_publish ros stamp p (this1\<lparr>odometry := e\<rparr>))
                             @ snd (processData_countdown odo ros stamp p
                                  (fst (processData_publish ros stamp p (this1\<lparr>odometry := e\<rparr>))))
                             @ processData_info ros stamp)
                      \<and> (\<not> isNull p \<longrightarrow>
                           odometry (fst (processData odo ros data stamp this)) = e))
             else processData odo ros data stamp this
                    = (this1, evs0 @ evs1 @ evs2 @ [ROS_ERROR_guess_cannot_be_computed])
                \<and> (\<forall>g p. Odometry_process g p \<notin> set (snd (processData odo ros data stamp this)))"
proof -
  obtain e where this1: "this1 = this\<lparr>odometry := e\<rparr>"
    using init_Some [OF assms(2)] by auto
  obtain previousPose evs1 where
    t1: "getTransform this ros (odomFrameId this) (guessFrameId this)
           (previousStamp odo (odometry this1)) = (previousPose, evs1)"
    by (cases "getTransform this ros (odomFrameId this) (guessFrameId this)
                 (previousStamp odo (odometry this1))")
  obtain pose evs2 where
    t2: "getTransform this ros (odomFrameId this) (guessFrameId this) stamp = (pose, evs2)"
    by (cases "getTransform this ros (odomFrameId this) (guessFrameId this) stamp")
  show ?thesis
  proof (cases "\<not> isNull previousPose \<and> \<not> isNull pose")
    case True
    let ?guess = "inverse previousPose * pose"
    from assms(1) this1 t1 t2 True
    have g: "processData_guess odo ros stamp this1 = (Some ?guess, evs1 @ evs2)"
      by (simp add: processData_guess_def)
    obtain p e' where p: "process odo data ?guess (odometry this1) = (p, e')"
      by (cases "process odo data ?guess (odometry this1)")
    note pd = processData_continue [OF assms(2) g p]
    have A: "\<exists>p. Odometry_process ?guess p \<in> set (snd (processData odo ros data stamp this))"
      by (rule exI [of _ p]) (simp add: pd)
    have B: "\<forall>g' p'. Odometry_process g' p' \<in> set (snd (processData odo ros data stamp this))
               \<longrightarrow> g' = ?guess"
      using processData_estimated [of _ _ odo ros data stamp this] assms(2) g by auto
    have D: "\<not> isNull p \<longrightarrow> odometry (fst (processData odo ros data stamp this)) = e'"
      by (simp add: pd publish_valid countdown_valid)
    have C: "case process odo data ?guess (odometry this1) of
               (p, e) \<Rightarrow>
                 processData odo ros data stamp this =
                   (fst (processData_countdown odo ros stamp p
                           (fst (processData_publish ros stamp p (this1\<lparr>odometry := e\<rparr>)))),
                    evs0 @ evs1 @ evs2 @ [Odometry_process ?guess p]
                      @ snd (processData_publish ros stamp p (this1\<lparr>odometry := e\<rparr>))
                      @ snd (processData_countdown odo ros stamp p
                           (fst (processData_publish ros stamp p (this1\<lparr>odometry := e\<rparr>))))
                      @ processData_info ros stamp)
               \<and> (\<not> isNull p \<longrightarrow> odometry (fst (processData odo ros data stamp this)) = e)"
      unfolding p prod.case using pd D by simp
    show ?thesis
      unfolding t1 t2 prod.case if_P [OF True] by (intro conjI A B C)
  next
    case False
    from assms(1) this1 t1 t2 False
    have g: "processData_guess odo ros stamp this1
               = (None, evs1 @ evs2 @ [ROS_ERROR_guess_cannot_be_computed])"
      by (auto simp: processData_guess_def)
    with assms(2) have A: "processData odo ros data stamp this
               = (this1, evs0 @ evs1 @ evs2 @ [ROS_ERROR_guess_cannot_be_computed])"
      by (simp add: processData_def)
    have B: "Odometry_process g' p' \<notin> set (snd (processData odo ros data stamp this))" for g' p'
      using processData_estimated [of g' p' odo ros data stamp this] assms(2) g by auto
    show ?thesis unfolding t1 t2 prod.case if_not_P [OF False] using A B by blast
  qed
qed

theorem guess_from_tf_witness:
  "guessFromTf ((node 5 3 3)\<lparr>guessFromTf := True, guessFrameId := ''base_footprint''\<rparr>)
   \<and> processData_init echo
        (tf_of (\<lambda>a b s. if a = ''odom'' \<and> b = ''base_footprint''
                          then (if s = 0 then Some 2 else if s = 10 then Some 6 else None)
                          else None))
        10 ((node 5 3 3)\<lparr>guessFromTf := True, guessFrameId := ''base_footprint''\<rparr>)
      = (Some ((node 5 3 3)\<lparr>guessFromTf := True, guessFrameId := ''base_footprint''\<rparr>), [])
   \<and> (3::rat) = inverse 2 * 6
   \<and> process echo 4 (inverse 2 * 6)
        (odometry ((node 5 3 3)\<lparr>guessFromTf := True, guessFrameId := ''base_footprint''\<rparr>))
      = (3, (3, 0))
   \<and> Odometry_process 3 3 \<in> set (snd (processData echo
        (tf_of (\<lambda>a b s. if a = ''odom'' \<and> b = ''base_footprint''
                          then (if s = 0 then Some 2 else if s = 10 then Some 6 else None)
                          else None))
        4 10 ((node 5 3 3)\<lparr>guessFromTf := True, guessFrameId := ''base_footprint''\<rparr>)))
   \<and> odometry (fst (processData echo
        (tf_of (\<lambda>a b s. if a = ''odom'' \<and> b = ''base_footprint''
                          then (if s = 0 then Some 2 else if s = 10 then Some 6 else None)
                          else None))
        4 10 ((node 5 3 3)\<lparr>guessFromTf := True, guessFrameId := ''base_footprint''\<rparr>)))
      = (3, 0)
   \<and> processData echo no_tf 4 10
        ((node 5 3 3)\<lparr>guessFromTf := True, guessFrameId := ''base_footprint''\<rparr>)
      = ((node 5 3 3)\<lparr>guessFromTf := True, guessFrameId := ''base_footprint''\<rparr>,
         [NODELET_WARN_TransformException ''odom'' ''base_footprint'' 0,
          NODELET_WARN_Could_not_get_transform ''odom'' ''base_footprint'' 10,
          ROS_ERROR_guess_cannot_be_computed])"
proof -
  let ?n = "(node 5 3 3)\<lparr>guessFromTf := True, guessFrameId := ''base_footprint''\<rparr>"
  let ?tf = "tf_of (\<lambda>a b s. if a = ''odom'' \<and> b = ''base_footprint''
                          then (if s = 0 then Some (2::rat) else if s = 10 then Some 6 else None)
                          else None)"
  have h1: "guessFromTf ?n" by (simp add: run_defs)
  have h2: "processData_init echo ?tf 10 ?n = (Some ?n, [])" by (simp add: run_defs)
  have h3: "processData_init echo no_tf 10 ?n = (Some ?n, [])" by (simp add: run_defs)
  have t1: "getTransform ?n ?tf (odomFrameId ?n) (guessFrameId ?n)
              (previousStamp echo (odometry ?n)) = (2, [])"
    by (simp add: run_defs)
  have t2: "getTransform ?n ?tf (odomFrameId ?n) (guessFrameId ?n) 10 = (6, [])"
    by (simp add: run_defs)
  have t3: "getTransform ?n no_tf (odomFrameId ?n) (guessFrameId ?n)
              (previousStamp echo (odometry ?n))
            = (0, [NODELET_WARN_TransformException ''odom'' ''base_footprint'' 0])"
    by (simp add: run_defs)
  have t4: "getTransform ?n no_tf (odomFrameId ?n) (guessFrameId ?n) 10
            = (0, [NODELET_WARN_Could_not_get_transform ''odom'' ''base_footprint'' 10])"
    by (simp add: run_defs)
  have P: "process echo 4 (inverse 2 * 6) (odometry ?n) = (3, (3, 0))"
    by (simp add: echo_def node_def OdometryROS_new_def)
  have ok: "\<not> isNull (2::rat) \<and> \<not> isNull (6::rat)"
    and ko: "\<not> (\<not> isNull (0::rat) \<and> \<not> isNull (0::rat))"
    and nz: "\<not> isNull (3::rat)"
    by (simp_all add: isNull_def)
  have q: "(3::rat) = inverse 2 * 6"
    by simp
  note A = guess_from_tf [OF h1 h2, where data = 4, unfolded t1 t2 prod.case if_P [OF ok]]
  note B = guess_from_tf [OF h1 h3, where data = 4, unfolded t3 t4 prod.case if_not_P [OF ko]]
  note A3 = A [THEN conjunct2, THEN conjunct2, unfolded P prod.case]
  from A3 [THEN conjunct2] nz
  have a: "odometry (fst (processData echo ?tf 4 10 ?n)) = (3, 0)"
    by blast
  from A3 [THEN conjunct1]
  have e: "Odometry_process 3 3 \<in> set (snd (processData echo ?tf 4 10 ?n))"
    by (simp add: q [symmetric])
  from B have b: "processData echo no_tf 4 10 ?n
      = (?n, [] @ [NODELET_WARN_TransformException ''odom'' ''base_footprint'' 0]
               @ [NODELET_WARN_Could_not_get_transform ''odom'' ''base_footprint'' 10]
               @ [ROS_ERROR_guess_cannot_be_computed])"
    by (rule conjunct1)
  show ?thesis
    by (intro conjI h1 h2 q P e a b [unfolded append_Nil append_Cons])
qed

section \<open>The countdown over a stream of observations\<close>

lemma run_Cons:
  "run step ((ros, data, stamp) # obs) this =
     (fst (run step obs (fst (step ros data stamp this))),
      snd (step ros data stamp this) # snd (run step obs (fst (step ros data stamp this))))"
  by (simp split: prod.splits)



lemma countdown_idle:
  "resetCurrentCount this \<le> 0 \<Longrightarrow> processData_countdown odo ros stamp pose this = (this, [])"
  by (simp add: processData_countdown_def)



lemma processData_cases [case_names init_return guess_return estimation]:
  obtains evs0 where "processData_init odo ros stamp this = (None, evs0)"
      and "processData odo ros data stamp this = (this, evs0)"
  | this1 evs0 evs1 where "processData_init odo ros stamp this = (Some this1, evs0)"
      and "processData_guess odo ros stamp this1 = (None, evs1)"
      and "processData odo ros data stamp this = (this1, evs0 @ evs1)"
  | this1 evs0 guess evs1 pose e where "processData_init odo ros stamp this = (Some this1, evs0)"
      and "processData_guess odo ros stamp this1 = (Some guess, evs1)"
      and "process odo data guess (odometry this1) = (pose, e)"
proof -
  obtain r0 evs0 where i: "processData_init odo ros stamp this = (r0, evs0)"
    by (cases "processData_init odo ros stamp this")
  show ?thesis
  proof (cases r0)
    case None
    with i that(1) show ?thesis by (simp add: processData_def)
  next
    case (Some this1)
    obtain r1 evs1 where g: "processData_guess odo ros stamp this1 = (r1, evs1)"
      by (cases "processData_guess odo ros stamp this1")
    show ?thesis
    proof (cases r1)
      case None
      with i Some g that(2) show ?thesis by (simp add: processData_def)
    next
      case (Some guess)
      obtain pose e where "process odo data guess (odometry this1) = (pose, e)"
        by (cases "process odo data guess (odometry this1)")
      with i \<open>r0 = Some this1\<close> g Some that(3) show ?thesis by blast
    qed
  qed
qed

lemma processData_idle:
  assumes "resetCurrentCount this \<le> 0" and "resetCountdown this \<le> 0"
  shows "resetCurrentCount (fst (processData odo ros data stamp this)) \<le> 0
       \<and> resetCountdown (fst (processData odo ros data stamp this)) = resetCountdown this
       \<and> \<not> list_ex is_auto_reset (snd (processData odo ros data stamp this))"
proof (cases rule: processData_cases [of odo ros stamp this data])
  case (init_return evs0)
  with assms show ?thesis by simp
next
  case (guess_return this1 evs0 evs1)
  with assms init_Some [OF guess_return(1)] show ?thesis by auto
next
  case (estimation this1 evs0 guess evs1 pose e)
  obtain e0 where this1: "this1 = this\<lparr>odometry := e0\<rparr>"
    using init_Some [OF estimation(1)] by auto
  note pd = processData_continue [OF estimation]
  show ?thesis
  proof (cases "isNull pose")
    case True
    with assms this1 estimation(1,2) show ?thesis
      by (simp add: pd publish_null countdown_idle)
  next
    case False
    with assms this1 estimation(1,2) show ?thesis
      by (simp add: pd publish_valid countdown_valid)
  qed
qed

lemma publish_count:
  "resetCurrentCount this \<le> 0 \<Longrightarrow> resetCountdown this \<le> 0 \<Longrightarrow>
     resetCurrentCount (fst (processData_publish ros stamp pose this)) \<le> 0"
  by (simp add: processData_publish_def)

lemma processData_disabled:
  assumes "resetCountdown this = 0" and "resetCurrentCount this = 0"
  shows "resetCurrentCount (fst (processData odo ros data stamp this)) = 0
       \<and> resetCountdown (fst (processData odo ros data stamp this)) = 0"
proof (cases rule: processData_cases [of odo ros stamp this data])
  case (init_return evs0)
  with assms show ?thesis by simp
next
  case (guess_return this1 evs0 evs1)
  with assms init_Some [OF guess_return(1)] show ?thesis by auto
next
  case (estimation this1 evs0 guess evs1 pose e)
  obtain e0 where this1: "this1 = this\<lparr>odometry := e0\<rparr>"
    using init_Some [OF estimation(1)] by auto
  note pd = processData_continue [OF estimation]
  show ?thesis
  proof (cases "isNull pose")
    case True
    with assms this1 show ?thesis
      by (simp add: pd publish_null countdown_idle)
  next
    case False
    with assms this1 show ?thesis
      by (simp add: pd publish_valid countdown_valid)
  qed
qed

lemma run_disabled:
  assumes "resetCountdown this = 0" and "resetCurrentCount this = 0"
  shows "resetCurrentCount (fst (run (processData odo) obs this)) = 0
       \<and> resetCountdown (fst (run (processData odo) obs this)) = 0"
  using assms
proof (induction obs arbitrary: this)
  case Nil
  then show ?case by simp
next
  case (Cons ob obs)
  obtain ros data stamp where ob: "ob = (ros, data, stamp)"
    by (cases ob)
  from processData_disabled [OF Cons.prems, of odo ros data stamp]
  have "resetCountdown (fst (processData odo ros data stamp this)) = 0"
    and "resetCurrentCount (fst (processData odo ros data stamp this)) = 0"
    by simp_all
  from Cons.IH [OF this] show ?case
    by (simp add: ob run_Cons del: run.simps(2))
qed

lemma processData_no_recovery:
  assumes "resetCountdown this = 0" and "resetCurrentCount this = 0"
  shows "(\<forall>pose. Odometry_reset pose \<in> set (snd (processData odo ros data stamp this)) \<longrightarrow>
                 Odometry_reset pose \<in> set (snd (processData_init odo ros stamp this)))
       \<and> (\<forall>guess pose this1 evs0.
             Odometry_process guess pose \<in> set (snd (processData odo ros data stamp this))
             \<and> processData_init odo ros stamp this = (Some this1, evs0) \<longrightarrow>
               odometry (fst (processData odo ros data stamp this))
                 = snd (process odo data guess (odometry this1))
             \<and> (Odometry_contract odo \<and> isNull pose \<longrightarrow>
                  getPose odo (odometry (fst (processData odo ros data stamp this)))
                    = getPose odo (odometry this1)))"
proof (cases rule: processData_cases [of odo ros stamp this data])
  case (init_return evs0)
  then have "\<And>guess pose. Odometry_process guess pose \<notin> set (snd (processData odo ros data stamp this))"
    by simp
  with init_return show ?thesis by simp
next
  case (guess_return this1 evs0 evs1)
  then have "\<And>guess pose. Odometry_process guess pose \<notin> set (snd (processData odo ros data stamp this))"
    by simp
  with guess_return show ?thesis by simp
next
  case (estimation this1 evs0 guess evs1 pose e)
  obtain e0 where this1: "this1 = this\<lparr>odometry := e0\<rparr>"
    using init_Some [OF estimation(1)] by auto
  let ?p = "fst (processData_publish ros stamp pose (this1\<lparr>odometry := e\<rparr>))"
  have "resetCurrentCount ?p \<le> 0"
    using assms this1 by (intro publish_count) simp_all
  then have c: "processData_countdown odo ros stamp pose ?p = (?p, [])"
    by (rule countdown_idle)
  have o: "odometry ?p = e"
    by (simp add: processData_publish_def)
  have pd: "processData odo ros data stamp this =
      (?p, evs0 @ evs1 @ [Odometry_process guess pose]
             @ snd (processData_publish ros stamp pose (this1\<lparr>odometry := e\<rparr>))
             @ processData_info ros stamp)"
    by (simp add: processData_continue [OF estimation] c)
  have pe: "Odometry_contract odo \<and> isNull pose \<longrightarrow> getPose odo e = getPose odo (odometry this1)"
    using contract_process [OF _ estimation(3)] by simp
  have A: "\<forall>pose. Odometry_reset pose \<in> set (snd (processData odo ros data stamp this)) \<longrightarrow>
                 Odometry_reset pose \<in> set (snd (processData_init odo ros stamp this))"
    using estimation(1,2) by (simp add: pd)
  have B: "\<forall>guess' pose' this1' evs0'.
             Odometry_process guess' pose' \<in> set (snd (processData odo ros data stamp this))
             \<and> processData_init odo ros stamp this = (Some this1', evs0') \<longrightarrow>
               odometry (fst (processData odo ros data stamp this))
                 = snd (process odo data guess' (odometry this1'))
             \<and> (Odometry_contract odo \<and> isNull pose' \<longrightarrow>
                  getPose odo (odometry (fst (processData odo ros data stamp this)))
                    = getPose odo (odometry this1'))"
    using estimation pe by (simp add: pd o)
  from A B show ?thesis by (rule conjI)
qed

text \<open>
  \<^bold>\<open>C6.\<close> With a countdown limit of 0, and the current count at 0 as the constructor
  leaves it, after any stream of observations: no call has run the automatic reset,
  however many estimations failed, and the count is still 0. In any further call, the
  estimator is reset only by the synchronisation with the ground truth at the start of the
  call (lines 331-346), and after an estimation the estimator is in the state that
  \<^verbatim>\<open>process\<close> returned; so, for an estimator that keeps its pose on a failure, a failed
  estimation leaves the pose that the estimator was called with.
\<close>

theorem countdown_disabled:
  assumes "resetCountdown this = 0" and "resetCurrentCount this = 0"
  shows "(\<forall>evs \<in> set (snd (run (processData odo) obs this)). \<not> list_ex is_auto_reset evs)
       \<and> resetCurrentCount (fst (run (processData odo) obs this)) = 0
       \<and> (\<forall>pose. Odometry_reset pose
                    \<in> set (snd (processData odo ros data stamp (fst (run (processData odo) obs this))))
                  \<longrightarrow> Odometry_reset pose
                    \<in> set (snd (processData_init odo ros stamp
                                  (fst (run (processData odo) obs this)))))
       \<and> (\<forall>guess pose this1 evs0.
             Odometry_process guess pose
               \<in> set (snd (processData odo ros data stamp (fst (run (processData odo) obs this))))
             \<and> processData_init odo ros stamp (fst (run (processData odo) obs this))
                 = (Some this1, evs0) \<longrightarrow>
               odometry (fst (processData odo ros data stamp
                                (fst (run (processData odo) obs this))))
                 = snd (process odo data guess (odometry this1))
             \<and> (Odometry_contract odo \<and> isNull pose \<longrightarrow>
                  getPose odo (odometry (fst (processData odo ros data stamp
                                                (fst (run (processData odo) obs this)))))
                    = getPose odo (odometry this1)))"
proof -
  have inv: "\<forall>evs \<in> set (snd (run (processData odo) obs this)). \<not> list_ex is_auto_reset evs"
    if "resetCountdown this \<le> 0" and "resetCurrentCount this \<le> 0" for this
    using that
  proof (induction obs arbitrary: this)
    case Nil
    show ?case by simp
  next
    case (Cons ob obs)
    obtain ros data stamp where ob: "ob = (ros, data, stamp)"
      by (cases ob)
    from processData_idle [OF Cons.prems(2,1), of odo ros data stamp]
    have step: "resetCurrentCount (fst (processData odo ros data stamp this)) \<le> 0"
        "resetCountdown (fst (processData odo ros data stamp this)) \<le> 0"
        "\<not> list_ex is_auto_reset (snd (processData odo ros data stamp this))"
      using Cons.prems(1) by simp_all
    from Cons.IH [OF step(2,1)] step(3) ob show ?case
      by (simp only: run_Cons snd_conv set_simps ball_simps) simp
  qed
  note s = run_disabled [OF assms, of odo obs]
  note n = processData_no_recovery [OF s [THEN conjunct2] s [THEN conjunct1], of odo ros data stamp]
  from assms have a: "\<forall>evs \<in> set (snd (run (processData odo) obs this)). \<not> list_ex is_auto_reset evs"
    by (intro inv) simp_all
  show ?thesis
    by (intro conjI a s [THEN conjunct1] n [THEN conjunct1] n [THEN conjunct2])
qed

theorem countdown_disabled_witness:
  "resetCountdown (node 5 0 0) = 0
   \<and> resetCurrentCount (node 5 0 0) = 0
   \<and> run (processData scripted) [(no_tf, 0, 10), (no_tf, 0, 20), (no_tf, 0, 30)] (node 5 0 0)
       = (node 5 0 0,
          [[Odometry_process 0 0, odomPub_publish (lost_msg (node 5 0 0) 10), NODELET_INFO_Odom],
           [Odometry_process 0 0, odomPub_publish (lost_msg (node 5 0 0) 20), NODELET_INFO_Odom],
           [Odometry_process 0 0, odomPub_publish (lost_msg (node 5 0 0) 30), NODELET_INFO_Odom]])
   \<and> \<not> list_ex is_auto_reset
         [Odometry_process 0 0, odomPub_publish (lost_msg (node 5 0 0) 30), NODELET_INFO_Odom]
   \<and> Odometry_process 0 0 \<in> set (snd (processData scripted no_tf 0 40 (node 5 0 0)))
   \<and> processData_init scripted no_tf 40 (node 5 0 0) = (Some (node 5 0 0), [])
   \<and> Odometry_contract scripted \<and> isNull (0::rat)
   \<and> odometry (fst (processData scripted no_tf 0 40 (node 5 0 0))) = (5, 0)
   \<and> getPose scripted (odometry (fst (processData scripted no_tf 0 40 (node 5 0 0)))) = 5"
proof -
  let ?obs = "[(no_tf, 0::rat, 10::nat), (no_tf, 0, 20), (no_tf, 0, 30)]"
  have h1: "resetCountdown (node 5 0 0) = 0" and h2: "resetCurrentCount (node 5 0 0) = 0"
    by (simp_all add: node_def)
  have R: "run (processData scripted) ?obs (node 5 0 0)
       = (node 5 0 0,
          [[Odometry_process 0 0, odomPub_publish (lost_msg (node 5 0 0) 10), NODELET_INFO_Odom],
           [Odometry_process 0 0, odomPub_publish (lost_msg (node 5 0 0) 20), NODELET_INFO_Odom],
           [Odometry_process 0 0, odomPub_publish (lost_msg (node 5 0 0) 30), NODELET_INFO_Odom]])"
    by (simp add: run_defs)
  note T = countdown_disabled [OF h1 h2, of scripted ?obs no_tf 0 40, unfolded R fst_conv snd_conv]
  from T [THEN conjunct1]
  have a: "\<not> list_ex is_auto_reset
         [Odometry_process 0 0, odomPub_publish (lost_msg (node 5 0 0) 30), NODELET_INFO_Odom]"
    by simp
  have e: "Odometry_process 0 0 \<in> set (snd (processData scripted no_tf 0 40 (node 5 0 0)))"
    by (simp add: run_defs)
  have i: "processData_init scripted no_tf 40 (node 5 0 0) = (Some (node 5 0 0), [])"
    by (simp add: run_defs)
  have z: "isNull (0::rat)"
    by (simp add: isNull_def)
  have v: "snd (process scripted 0 0 (odometry (node 5 0 0))) = (5, 0)"
    and g: "getPose scripted (odometry (node 5 0 0)) = 5"
    by (simp_all add: scripted_def node_def OdometryROS_new_def)
  from T [THEN conjunct2, THEN conjunct2, THEN conjunct2] e i scripted_contract z
  have "odometry (fst (processData scripted no_tf 0 40 (node 5 0 0)))
          = snd (process scripted 0 0 (odometry (node 5 0 0)))
      \<and> getPose scripted (odometry (fst (processData scripted no_tf 0 40 (node 5 0 0))))
          = getPose scripted (odometry (node 5 0 0))"
    by blast
  then have b: "odometry (fst (processData scripted no_tf 0 40 (node 5 0 0))) = (5, 0)"
    and c: "getPose scripted (odometry (fst (processData scripted no_tf 0 40 (node 5 0 0)))) = 5"
    unfolding v g by blast+
  show ?thesis
    by (intro conjI h1 h2 R a e i scripted_contract z b c)
qed














section \<open>Properties of onInit\<close>

text \<open>
  \<^verbatim>\<open>atoi\<close> stays within \<^verbatim>\<open>int\<close>: a digit string beyond it is cut to its low 32 bits, and
  one beyond \<^verbatim>\<open>long\<close> reads as \<^verbatim>\<open>LONG_MAX\<close> first.
\<close>

lemma atoi_range: "- (2 ^ 31) \<le> atoi s \<and> atoi s < 2 ^ 31"
proof -
  have "0 \<le> (strtol s + 2 ^ 31) mod 2 ^ 32" and "(strtol s + 2 ^ 31) mod 2 ^ 32 < 2 ^ 32"
    by simp_all
  then show ?thesis
    unfolding atoi_def by simp
qed

lemma atoi_examples:
  "atoi ''12'' = 12 \<and> atoi '' -5x'' = - 5 \<and> atoi ''+7'' = 7 \<and> atoi ''abc'' = 0
   \<and> atoi ''2147483648'' = - 2147483648 \<and> atoi ''4294967296'' = 0
   \<and> atoi ''99999999999999999999'' = - 1"
  by (simp add: atoi_def strtol_def isspace_def digit_def)

lemma map_of_entries:
  "map_of (map (\<lambda>(key, val). (key, f key val)) parameters) key
     = map_option (f key) (map_of parameters key)"
  by (induction parameters) auto

lemma fold_arguments:
  "distinct (map fst arguments) \<Longrightarrow>
     map_of (fst (fold onInit_argument arguments (parameters, evs))) key
       = (case map_of parameters key of
            None \<Rightarrow> None
          | Some val \<Rightarrow> Some (case map_of arguments key of Some arg \<Rightarrow> arg | None \<Rightarrow> val))"
proof (induction arguments arbitrary: parameters evs)
  case Nil
  show ?case by (simp split: option.splits)
next
  case (Cons a arguments)
  obtain k v where a: "a = (k, v)"
    by (cases a)
  from Cons.prems a have d: "distinct (map fst arguments)" and n: "map_of arguments k = None"
    by (auto simp: map_of_eq_None_iff)
  show ?case
  proof (cases "map_of parameters k")
    case None
    with Cons.IH [OF d, of parameters evs] a n show ?thesis
      by (auto simp: onInit_argument_def split: option.splits)
  next
    case (Some old)
    with Cons.IH [OF d, of "AList.update k v parameters"
                    "evs @ [NODELET_INFO_Update_odometry_parameter_from_arguments k v]"] a n
    show ?thesis
      by (auto simp: onInit_argument_def update_conv' split: option.splits)
  qed
qed

lemma rosparam_entries:
  "map (\<lambda>(key, val, evs). (key, val))
       (map (\<lambda>(key, val). (key, onInit_rosparam env key val)) parameters)
     = map (\<lambda>(key, val). (key, fst (onInit_rosparam env key val))) parameters"
  by (induction parameters) (auto split: prod.splits)

lemma config_lookup:
  "map_of (fst (onInit_config env configPath parameters)) key
     = map_option (\<lambda>val. case (if configPath \<noteq> [] \<and> UFile_exists env configPath
                                 then map_of (readINI env configPath) key else None) of
                            Some v \<Rightarrow> v | None \<Rightarrow> val)
         (map_of parameters key)"
  by (simp add: onInit_config_def map_of_entries option.map_ident)

lemma rosparam_value:
  "fst (onInit_rosparam env key val0)
     = (let val = (case onInit_getParam env key of Some v \<Rightarrow> v | None \<Rightarrow> val0)
        in if key = kVisMinInliers env \<and> atoi val < 8 then uNumber2Str_int env 8 else val)"
  by (cases "onInit_getParam env key") (simp_all add: onInit_rosparam_def Let_def)

text \<open>
  For every key of the default parameters, the value after line 243 is the one given on
  the command line if there is one; else the value of the ROS parameter of that name, else
  the value in the configuration file (if the file is named and exists), else the default,
  in this order, and raised to 8 if the key is the minimum of inliers and the value is
  below 8.
\<close>

lemma parameters_after_arguments:
  assumes "map_of (getDefaultOdometryParameters env) key = Some dflt"
      and "distinct (map fst (parseArguments env))"
  shows "map_of (fst (onInit_parameters env configPath)) key = Some
           (case map_of (parseArguments env) key of
              Some arg \<Rightarrow> arg
            | None \<Rightarrow>
                (let val =
                   (case onInit_getParam env key of
                      Some v \<Rightarrow> v
                    | None \<Rightarrow>
                        (case (if configPath \<noteq> [] \<and> UFile_exists env configPath
                               then map_of (readINI env configPath) key else None) of
                           Some v \<Rightarrow> v
                         | None \<Rightarrow> dflt))
                 in if key = kVisMinInliers env \<and> atoi val < 8 then uNumber2Str_int env 8
                    else val))"
proof -
  let ?file = "case (if configPath \<noteq> [] \<and> UFile_exists env configPath
                     then map_of (readINI env configPath) key else None) of
                 Some v \<Rightarrow> v | None \<Rightarrow> dflt"
  obtain parameters evs0 where
    cfg: "onInit_config env configPath (getDefaultOdometryParameters env) = (parameters, evs0)"
    by (cases "onInit_config env configPath (getDefaultOdometryParameters env)")
  have c: "map_of parameters key = Some ?file"
    using assms(1) config_lookup [of env configPath "getDefaultOdometryParameters env" key]
    by (simp add: cfg)
  have r: "map_of (map (\<lambda>(key, val). (key, fst (onInit_rosparam env key val))) parameters) key
             = Some (fst (onInit_rosparam env key ?file))"
    using c by (simp add: map_of_entries [where f = "\<lambda>key val. fst (onInit_rosparam env key val)"])
  have f: "map_of (fst (onInit_parameters env configPath)) key
             = Some (case map_of (parseArguments env) key of
                       Some arg \<Rightarrow> arg
                     | None \<Rightarrow> fst (onInit_rosparam env key ?file))"
    unfolding onInit_parameters_def cfg prod.case Let_def rosparam_entries
    by (simp only: fold_arguments [OF assms(2)] r option.case)
  show ?thesis
    unfolding f rosparam_value by (rule refl)
qed

lemma parameters_keys:
  assumes "map_of (getDefaultOdometryParameters env) key = None"
      and "distinct (map fst (parseArguments env))"
  shows "map_of (fst (onInit_parameters env configPath)) key = None"
proof -
  obtain parameters evs0 where
    cfg: "onInit_config env configPath (getDefaultOdometryParameters env) = (parameters, evs0)"
    by (cases "onInit_config env configPath (getDefaultOdometryParameters env)")
  have "map_of parameters key = None"
    using assms(1) config_lookup [of env configPath "getDefaultOdometryParameters env" key]
    by (simp add: cfg)
  then have "map_of (map (\<lambda>(key, val). (key, fst (onInit_rosparam env key val))) parameters) key
               = None"
    by (simp add: map_of_entries [where f = "\<lambda>key val. fst (onInit_rosparam env key val)"])
  then show ?thesis
    unfolding onInit_parameters_def cfg prod.case Let_def rosparam_entries
    by (simp only: fold_arguments [OF assms(2)] option.case)
qed

lemmas onInit_defs = onInit_parameters_def onInit_config_def onInit_rosparam_def
  onInit_getParam_def onInit_argument_def launch_def atoi_def strtol_def isspace_def digit_def
  onInit_estimator_parameters_def onInit_resetCountdown_def at_assign_def carried_over_def

lemma carried_over_Cons:
  "carried_over env ((old, migrate, new) # removed) =
     (case getParam_string env old of
        None \<Rightarrow> []
      | Some vStr \<Rightarrow> if migrate then [(new, vStr)] else []) @ carried_over env removed"
  by (simp add: carried_over_def)

lemma carried_over_Nil: "carried_over env [] = []"
  by (simp add: carried_over_def)

lemma removed_lookup:
  "onInit_removed env removed (parameters, evs) = Inr (parameters1, evs1) \<Longrightarrow>
     map_of parameters1 key =
       (case map_of parameters key of
          None \<Rightarrow> None
        | Some val \<Rightarrow>
            Some (case map_of (rev (carried_over env removed)) key of
                    Some v \<Rightarrow> v | None \<Rightarrow> val))"
proof (induction removed arbitrary: parameters evs)
  case Nil
  then show ?case
    by (auto simp: carried_over_Nil split: option.splits)
next
  case (Cons r removed)
  obtain old migrate new where r: "r = (old, migrate, new)"
    by (cases r)
  show ?case
  proof (cases "getParam_string env old")
    case None
    with Cons.prems r have "onInit_removed env removed (parameters, evs) = Inr (parameters1, evs1)"
      by simp
    from Cons.IH [OF this] show ?thesis
      unfolding r carried_over_Cons None option.case append_Nil by simp
  next
    case (Some vStr)
    show ?thesis
    proof (cases migrate)
      case False
      from False have m: "migrate = False"
        by simp
      from Cons.prems r Some m obtain evs' where
        o: "onInit_removed env removed (parameters, evs') = Inr (parameters1, evs1)"
        by auto
      from Cons.IH [OF o] show ?thesis
        unfolding r carried_over_Cons Some option.case m if_False append_Nil by simp
    next
      case True
      from True have m: "migrate = True"
        by simp
      from Cons.prems r Some m obtain old_val where
          k: "map_of parameters new = Some old_val"
        and o: "onInit_removed env removed
               (AList.update new vStr parameters,
                evs @ [NODELET_WARN_Parameter_name_changed old new vStr])
             = Inr (parameters1, evs1)"
        by (auto simp: at_assign_def split: option.splits sum.splits)
      from Cons.IH [OF o] k show ?thesis
        unfolding r carried_over_Cons Some option.case m if_True
        by (auto simp: update_conv' map_add_def split: option.splits)
    qed
  qed
qed

lemma parameters_dom:
  assumes "distinct (map fst (parseArguments env))"
  shows "map_of (fst (onInit_parameters env configPath)) key = None
           \<longleftrightarrow> map_of (getDefaultOdometryParameters env) key = None"
proof (cases "map_of (getDefaultOdometryParameters env) key")
  case None
  with parameters_keys [OF None assms] show ?thesis
    by simp
next
  case (Some dflt)
  with parameters_after_arguments [OF Some assms, of configPath] show ?thesis
    by simp
qed

lemma removed_returns:
  "\<forall>new \<in> fst ` set (carried_over env removed). map_of parameters new \<noteq> None \<Longrightarrow>
     \<exists>parameters1 evs1. onInit_removed env removed (parameters, evs) = Inr (parameters1, evs1)"
proof (induction removed arbitrary: parameters evs)
  case Nil
  show ?case
    by simp
next
  case (Cons r removed)
  obtain old migrate new where r: "r = (old, migrate, new)"
    by (cases r)
  show ?case
  proof (cases "getParam_string env old")
    case None
    from Cons.prems have "\<forall>new \<in> fst ` set (carried_over env removed). map_of parameters new \<noteq> None"
      unfolding r carried_over_Cons None by simp
    from Cons.IH [OF this, of evs] show ?thesis
      unfolding r by (simp add: None)
  next
    case (Some vStr)
    show ?thesis
    proof (cases migrate)
      case False
      from False have m: "migrate = False"
        by simp
      from Cons.prems have "\<forall>new \<in> fst ` set (carried_over env removed). map_of parameters new \<noteq> None"
        unfolding r carried_over_Cons Some m by simp
      from Cons.IH [OF this] show ?thesis
        unfolding r m by (simp add: Some)
    next
      case True
      from True have m: "migrate = True"
        by simp
      from Cons.prems have k: "map_of parameters new \<noteq> None"
        and "\<forall>new \<in> fst ` set (carried_over env removed). map_of parameters new \<noteq> None"
        unfolding r carried_over_Cons Some m by simp_all
      then have "\<forall>n \<in> fst ` set (carried_over env removed).
                   map_of (AList.update new vStr parameters) n \<noteq> None"
        by (simp add: update_conv')
      from Cons.IH [OF this] k show ?thesis
        unfolding r m by (auto simp: Some at_assign_def)
    qed
  qed
qed

lemma resetCountdown_result:
  "map_of parameters (kOdomResetCountdown env) = Some v \<Longrightarrow>
     onInit_resetCountdown env resetCountdown0 (parameters, evs)
       = Inr (AList.update (kOdomResetCountdown env) ''0'' parameters, uStr2Int env v, evs)"
  by (simp add: onInit_resetCountdown_def at_assign_def)

text \<open>
  \<^bold>\<open>C8.\<close> When the names that values are carried over to and \<^verbatim>\<open>Odom/ResetCountdown\<close>
  are keys of the default parameters, \<^verbatim>\<open>parameters_.at\<close> does not throw, and for every
  key of the default parameters the value handed to the estimator (line 281) is:
  \<open>''0''\<close> for \<^verbatim>\<open>Odom/ResetCountdown\<close>; for another key, the value of the ROS parameter
  set under a removed name and carried over to this key, if there is one (the last
  in the order of the table); else the value given on the command line; else the value of
  the ROS parameter of that name, else the value in the configuration file (if the file is
  named and exists), else the default, in this order, and raised to 8 if the key is the
  minimum of inliers and the value is below 8. What this order gives for
  \<^verbatim>\<open>Odom/ResetCountdown\<close> is read as the countdown limit of the node.
\<close>

theorem effective_parameters:
  assumes "map_of (getDefaultOdometryParameters env) key = Some dflt"
      and "distinct (map fst (parseArguments env))"
      and "\<forall>new \<in> fst ` set (carried_over env (getRemovedParameters env)).
             map_of (getDefaultOdometryParameters env) new \<noteq> None"
      and "map_of (getDefaultOdometryParameters env) (kOdomResetCountdown env) \<noteq> None"
  shows "case onInit_estimator_parameters env configPath resetCountdown0 of
           Inl e \<Rightarrow> False
         | Inr (parameters, resetCountdown1, evs) \<Rightarrow>
             (let val =
                (case map_of (rev (carried_over env (getRemovedParameters env))) key of
                   Some carried \<Rightarrow> carried
                 | None \<Rightarrow>
                (case map_of (parseArguments env) key of
                   Some arg \<Rightarrow> arg
                 | None \<Rightarrow>
                     (let val =
                        (case onInit_getParam env key of
                           Some v \<Rightarrow> v
                         | None \<Rightarrow>
                             (case (if configPath \<noteq> [] \<and> UFile_exists env configPath
                                    then map_of (readINI env configPath) key else None) of
                                Some v \<Rightarrow> v
                              | None \<Rightarrow> dflt))
                      in if key = kVisMinInliers env \<and> atoi val < 8 then uNumber2Str_int env 8
                         else val)))
              in map_of parameters key
                   = Some (if key = kOdomResetCountdown env then ''0'' else val)
                 \<and> (key = kOdomResetCountdown env \<longrightarrow> resetCountdown1 = uStr2Int env val))"
proof -
  obtain parameters0 evs0 where p0: "onInit_parameters env configPath = (parameters0, evs0)"
    by (cases "onInit_parameters env configPath")
  have d: "map_of parameters0 k = None \<longleftrightarrow> map_of (getDefaultOdometryParameters env) k = None"
    for k
    using parameters_dom [OF assms(2), of configPath k] by (simp add: p0)
  from assms(3) have "\<forall>new \<in> fst ` set (carried_over env (getRemovedParameters env)).
                        map_of parameters0 new \<noteq> None"
    by (simp add: d)
  from removed_returns [OF this, of evs0] obtain parameters1 evs1 where
    p1: "onInit_removed env (getRemovedParameters env) (parameters0, evs0) = Inr (parameters1, evs1)"
    by blast
  note L = removed_lookup [OF p1]
  from assms(4) obtain v0 where "map_of parameters0 (kOdomResetCountdown env) = Some v0"
    using d [of "kOdomResetCountdown env"] by auto
  with L [of "kOdomResetCountdown env"] obtain v where
    v: "map_of parameters1 (kOdomResetCountdown env) = Some v"
    by simp
  have r: "onInit_estimator_parameters env configPath resetCountdown0
             = Inr (AList.update (kOdomResetCountdown env) ''0'' parameters1, uStr2Int env v, evs1)"
    unfolding onInit_estimator_parameters_def p0 p1 sum.case
    by (rule resetCountdown_result [OF v])
  have k: "map_of parameters0 key = Some
           (case map_of (parseArguments env) key of
              Some arg \<Rightarrow> arg
            | None \<Rightarrow>
                (let val =
                   (case onInit_getParam env key of
                      Some v \<Rightarrow> v
                    | None \<Rightarrow>
                        (case (if configPath \<noteq> [] \<and> UFile_exists env configPath
                               then map_of (readINI env configPath) key else None) of
                           Some v \<Rightarrow> v
                         | None \<Rightarrow> dflt))
                 in if key = kVisMinInliers env \<and> atoi val < 8 then uNumber2Str_int env 8
                    else val))"
    using parameters_after_arguments [OF assms(1,2), of configPath] by (simp add: p0)
  have k1: "map_of parameters1 key = Some
       (case map_of (rev (carried_over env (getRemovedParameters env))) key of
                   Some carried \<Rightarrow> carried
                 | None \<Rightarrow>
                (case map_of (parseArguments env) key of
                   Some arg \<Rightarrow> arg
                 | None \<Rightarrow>
                     (let val =
                        (case onInit_getParam env key of
                           Some v \<Rightarrow> v
                         | None \<Rightarrow>
                             (case (if configPath \<noteq> [] \<and> UFile_exists env configPath
                                    then map_of (readINI env configPath) key else None) of
                                Some v \<Rightarrow> v
                              | None \<Rightarrow> dflt))
                      in if key = kVisMinInliers env \<and> atoi val < 8 then uNumber2Str_int env 8
                         else val)))"
    unfolding L [of key] k option.case by (rule refl)
  show ?thesis
  proof (cases "key = kOdomResetCountdown env")
    case True
    from k1 v True show ?thesis
      unfolding r sum.case prod.case Let_def by (simp add: update_conv')
  next
    case False
    from k1 False show ?thesis
      unfolding r sum.case prod.case Let_def by (simp add: update_conv')
  qed
qed

theorem effective_parameters_witness:
  "map_of (getDefaultOdometryParameters
      (launch [(''Odom/MinInliers'', ''9''), (''Odom/ResetCountdown'', ''4''),
               (''Vis/MinInliers'', ''12'')] []
         [(''Odom/ResetCountdown'', ''3''), (''Odom/Strategy'', ''1''), (''Vis/MinInliers'', ''10'')]
         [(''Odom/Strategy'', ''2'')])) ''Odom/ResetCountdown'' = Some ''0''
   \<and> distinct (map fst (parseArguments
      (launch [(''Odom/MinInliers'', ''9''), (''Odom/ResetCountdown'', ''4''),
               (''Vis/MinInliers'', ''12'')] []
         [(''Odom/ResetCountdown'', ''3''), (''Odom/Strategy'', ''1''), (''Vis/MinInliers'', ''10'')]
         [(''Odom/Strategy'', ''2'')])))
   \<and> carried_over
      (launch [(''Odom/MinInliers'', ''9''), (''Odom/ResetCountdown'', ''4''),
               (''Vis/MinInliers'', ''12'')] []
         [(''Odom/ResetCountdown'', ''3''), (''Odom/Strategy'', ''1''), (''Vis/MinInliers'', ''10'')]
         [(''Odom/Strategy'', ''2'')])
      (getRemovedParameters
      (launch [(''Odom/MinInliers'', ''9''), (''Odom/ResetCountdown'', ''4''),
               (''Vis/MinInliers'', ''12'')] []
         [(''Odom/ResetCountdown'', ''3''), (''Odom/Strategy'', ''1''), (''Vis/MinInliers'', ''10'')]
         [(''Odom/Strategy'', ''2'')])) = [(''Vis/MinInliers'', ''9'')]
   \<and> onInit_estimator_parameters
      (launch [(''Odom/MinInliers'', ''9''), (''Odom/ResetCountdown'', ''4''),
               (''Vis/MinInliers'', ''12'')] []
         [(''Odom/ResetCountdown'', ''3''), (''Odom/Strategy'', ''1''), (''Vis/MinInliers'', ''10'')]
         [(''Odom/Strategy'', ''2'')]) ''/odom.ini'' 0
      = Inr ([(''Odom/ResetCountdown'', ''0''), (''Odom/Strategy'', ''2''),
              (''Vis/MinInliers'', ''9'')], 4,
             [NODELET_INFO_Loading_parameters_from ''/odom.ini'',
              NODELET_INFO_Setting_odometry_parameter ''Odom/ResetCountdown'' ''4'',
              NODELET_INFO_Setting_odometry_parameter ''Vis/MinInliers'' ''12'',
              NODELET_INFO_Update_odometry_parameter_from_arguments ''Odom/Strategy'' ''2'',
              NODELET_WARN_Parameter_name_changed ''Odom/MinInliers'' ''Vis/MinInliers'' ''9''])
   \<and> map_of [(''Odom/ResetCountdown'', ''0''), (''Odom/Strategy'', ''2''),
              (''Vis/MinInliers'', ''9'')] ''Odom/ResetCountdown'' = Some ''0''
   \<and> (4::int) = uStr2Int
      (launch [(''Odom/MinInliers'', ''9''), (''Odom/ResetCountdown'', ''4''),
               (''Vis/MinInliers'', ''12'')] []
         [(''Odom/ResetCountdown'', ''3''), (''Odom/Strategy'', ''1''), (''Vis/MinInliers'', ''10'')]
         [(''Odom/Strategy'', ''2'')]) ''4''
   \<and> map_of [(''Odom/ResetCountdown'', ''0''), (''Odom/Strategy'', ''2''),
              (''Vis/MinInliers'', ''9'')] ''Odom/Strategy'' = Some ''2''
   \<and> map_of [(''Odom/ResetCountdown'', ''0''), (''Odom/Strategy'', ''2''),
              (''Vis/MinInliers'', ''9'')] ''Vis/MinInliers'' = Some ''9''"
proof -
  let ?env = "launch [(''Odom/MinInliers'', ''9''), (''Odom/ResetCountdown'', ''4''),
               (''Vis/MinInliers'', ''12'')] []
         [(''Odom/ResetCountdown'', ''3''), (''Odom/Strategy'', ''1''), (''Vis/MinInliers'', ''10'')]
         [(''Odom/Strategy'', ''2'')]"
  have h1: "map_of (getDefaultOdometryParameters ?env) ''Odom/ResetCountdown'' = Some ''0''"
    and s1: "map_of (getDefaultOdometryParameters ?env) ''Odom/Strategy'' = Some ''0''"
    and m1: "map_of (getDefaultOdometryParameters ?env) ''Vis/MinInliers'' = Some ''20''"
    by (simp_all add: launch_def)
  have h2: "distinct (map fst (parseArguments ?env))"
    by (simp add: launch_def)
  have c: "carried_over ?env (getRemovedParameters ?env) = [(''Vis/MinInliers'', ''9'')]"
    by (simp add: launch_def carried_over_def)
  have h3: "\<forall>new \<in> fst ` set (carried_over ?env (getRemovedParameters ?env)).
              map_of (getDefaultOdometryParameters ?env) new \<noteq> None"
    unfolding c by (simp add: launch_def)
  have h4: "map_of (getDefaultOdometryParameters ?env) (kOdomResetCountdown ?env) \<noteq> None"
    by (simp add: launch_def)
  have k: "''Odom/ResetCountdown'' = kOdomResetCountdown ?env"
    and ns: "''Odom/Strategy'' \<noteq> kOdomResetCountdown ?env"
    and nm: "''Vis/MinInliers'' \<noteq> kOdomResetCountdown ?env"
    by (simp_all add: launch_def)
  have e: "onInit_estimator_parameters ?env ''/odom.ini'' 0
      = Inr ([(''Odom/ResetCountdown'', ''0''), (''Odom/Strategy'', ''2''),
              (''Vis/MinInliers'', ''9'')], 4,
             [NODELET_INFO_Loading_parameters_from ''/odom.ini'',
              NODELET_INFO_Setting_odometry_parameter ''Odom/ResetCountdown'' ''4'',
              NODELET_INFO_Setting_odometry_parameter ''Vis/MinInliers'' ''12'',
              NODELET_INFO_Update_odometry_parameter_from_arguments ''Odom/Strategy'' ''2'',
              NODELET_WARN_Parameter_name_changed ''Odom/MinInliers'' ''Vis/MinInliers'' ''9''])"
    by (simp add: onInit_defs)
  have vk: "(case map_of (rev (carried_over ?env (getRemovedParameters ?env)))
                   ''Odom/ResetCountdown'' of
                   Some carried \<Rightarrow> carried
                 | None \<Rightarrow>
                (case map_of (parseArguments ?env) ''Odom/ResetCountdown'' of
                   Some arg \<Rightarrow> arg
                 | None \<Rightarrow>
                     (let val =
                        (case onInit_getParam ?env ''Odom/ResetCountdown'' of
                           Some v \<Rightarrow> v
                         | None \<Rightarrow>
                             (case (if ''/odom.ini'' \<noteq> [] \<and> UFile_exists ?env ''/odom.ini''
                                    then map_of (readINI ?env ''/odom.ini'') ''Odom/ResetCountdown''
                                    else None) of
                                Some v \<Rightarrow> v
                              | None \<Rightarrow> ''0''))
                      in if ''Odom/ResetCountdown'' = kVisMinInliers ?env \<and> atoi val < 8
                         then uNumber2Str_int ?env 8
                         else val))) = ''4''"
    unfolding c by (simp add: onInit_defs)
  have vs: "(case map_of (rev (carried_over ?env (getRemovedParameters ?env)))
                   ''Odom/Strategy'' of
                   Some carried \<Rightarrow> carried
                 | None \<Rightarrow>
                (case map_of (parseArguments ?env) ''Odom/Strategy'' of
                   Some arg \<Rightarrow> arg
                 | None \<Rightarrow>
                     (let val =
                        (case onInit_getParam ?env ''Odom/Strategy'' of
                           Some v \<Rightarrow> v
                         | None \<Rightarrow>
                             (case (if ''/odom.ini'' \<noteq> [] \<and> UFile_exists ?env ''/odom.ini''
                                    then map_of (readINI ?env ''/odom.ini'') ''Odom/Strategy''
                                    else None) of
                                Some v \<Rightarrow> v
                              | None \<Rightarrow> ''0''))
                      in if ''Odom/Strategy'' = kVisMinInliers ?env \<and> atoi val < 8
                         then uNumber2Str_int ?env 8
                         else val))) = ''2''"
    unfolding c by (simp add: onInit_defs)
  have vm: "(case map_of (rev (carried_over ?env (getRemovedParameters ?env)))
                   ''Vis/MinInliers'' of
                   Some carried \<Rightarrow> carried
                 | None \<Rightarrow>
                (case map_of (parseArguments ?env) ''Vis/MinInliers'' of
                   Some arg \<Rightarrow> arg
                 | None \<Rightarrow>
                     (let val =
                        (case onInit_getParam ?env ''Vis/MinInliers'' of
                           Some v \<Rightarrow> v
                         | None \<Rightarrow>
                             (case (if ''/odom.ini'' \<noteq> [] \<and> UFile_exists ?env ''/odom.ini''
                                    then map_of (readINI ?env ''/odom.ini'') ''Vis/MinInliers''
                                    else None) of
                                Some v \<Rightarrow> v
                              | None \<Rightarrow> ''20''))
                      in if ''Vis/MinInliers'' = kVisMinInliers ?env \<and> atoi val < 8
                         then uNumber2Str_int ?env 8
                         else val))) = ''9''"
    unfolding c by (simp add: onInit_defs)
  note K = effective_parameters [OF h1 h2 h3 h4, of "''/odom.ini''" 0,
             unfolded e sum.case prod.case vk, unfolded Let_def if_P [OF k]]
  note S = effective_parameters [OF s1 h2 h3 h4, of "''/odom.ini''" 0,
             unfolded e sum.case prod.case vs, unfolded Let_def if_not_P [OF ns]]
  note M = effective_parameters [OF m1 h2 h3 h4, of "''/odom.ini''" 0,
             unfolded e sum.case prod.case vm, unfolded Let_def if_not_P [OF nm]]
  show ?thesis
    by (intro conjI h1 h2 c e K [THEN conjunct1] K [THEN conjunct2, THEN mp, OF k]
          S [THEN conjunct1] M [THEN conjunct1])
qed

text \<open>
  \<^bold>\<open>C8.\<close> Three values that do not follow the order of file, ROS parameter and command
  line. In the first run the file gives 3 for the minimum of inliers and nothing else sets
  it: the value is 8; the ROS parameter gives 5 for \<^verbatim>\<open>Odom/ResetCountdown\<close>: the value
  is 0, and 5 is the countdown limit of the node. In the second run the command line gives
  12 for the minimum of inliers, and the ROS parameter of the removed name
  \<^verbatim>\<open>Odom/MinInliers\<close> gives 9: the value is 9.
\<close>

theorem precedence_exceptions:
  "onInit_estimator_parameters
     (launch [(''Odom/ResetCountdown'', ''5'')] [] [(''Vis/MinInliers'', ''3'')] [])
     ''/odom.ini'' 0
   = Inr ([(''Odom/ResetCountdown'', ''0''), (''Odom/Strategy'', ''0''),
           (''Vis/MinInliers'', ''8'')], 5,
          [NODELET_INFO_Loading_parameters_from ''/odom.ini'',
           NODELET_INFO_Setting_odometry_parameter ''Odom/ResetCountdown'' ''5'',
           NODELET_WARN_min_inliers_must_be_at_least_8])
   \<and> onInit_estimator_parameters
     (launch [(''Odom/MinInliers'', ''9'')] [] [] [(''Vis/MinInliers'', ''12'')]) [] 0
   = Inr ([(''Odom/ResetCountdown'', ''0''), (''Odom/Strategy'', ''0''),
           (''Vis/MinInliers'', ''9'')], 0,
          [NODELET_INFO_Update_odometry_parameter_from_arguments ''Vis/MinInliers'' ''12'',
           NODELET_WARN_Parameter_name_changed ''Odom/MinInliers'' ''Vis/MinInliers'' ''9''])"
  by (simp add: onInit_defs)

text \<open>
  \<^bold>\<open>C9.\<close> A minimum of inliers of 5 on the command line stays 5, with no warning; the same
  value as a ROS parameter is raised to 8, with the warning.
\<close>

theorem min_inliers_argument_below_floor:
  "atoi ''5'' < 8
   \<and> onInit_parameters (launch [] [] [] [(''Vis/MinInliers'', ''5'')]) []
       = ([(''Odom/ResetCountdown'', ''0''), (''Odom/Strategy'', ''0''), (''Vis/MinInliers'', ''5'')],
          [NODELET_INFO_Update_odometry_parameter_from_arguments ''Vis/MinInliers'' ''5''])
   \<and> onInit_parameters (launch [(''Vis/MinInliers'', ''5'')] [] [] []) []
       = ([(''Odom/ResetCountdown'', ''0''), (''Odom/Strategy'', ''0''), (''Vis/MinInliers'', ''8'')],
          [NODELET_INFO_Setting_odometry_parameter ''Vis/MinInliers'' ''5'',
           NODELET_WARN_min_inliers_must_be_at_least_8])"
  by (simp add: onInit_defs)

lemma guess_frame_check:
  assumes "getParam_string env ''tf_prefix'' = None \<or> getParam_string env ''tf_prefix'' = Some []"
  shows "\<not> (publishTf (fst (onInit_frames env this)) \<and> guessFromTf (fst (onInit_frames env this))
            \<and> guessFrameId (fst (onInit_frames env this)) = frameId (fst (onInit_frames env this)))"
proof -
  from assms have "param_string env ''tf_prefix'' [] = []"
    by (auto simp: param_string_def)
  then show ?thesis
    by (simp add: onInit_frames_def Let_def)
qed

text \<open>
  \<^bold>\<open>C10.\<close> With \<^verbatim>\<open>tf_prefix\<close> set to \<^verbatim>\<open>robot\<close>, \<^verbatim>\<open>frame_id\<close> to \<^verbatim>\<open>base_link\<close> and
  \<^verbatim>\<open>guess_frame_id\<close> to \<^verbatim>\<open>robot/base_link\<close>, and \<^verbatim>\<open>publish_tf\<close> and
  \<^verbatim>\<open>guess_from_tf\<close> both set, the check of line 122 compares \<^verbatim>\<open>robot/base_link\<close> with
  \<^verbatim>\<open>base_link\<close> and passes; the prefix is put before the sensor frame afterwards, and the
  node starts with the three conditions true and no warning.
\<close>

theorem guess_frame_check_before_tf_prefix:
  "fst (onInit_frames
     (launch [(''frame_id'', ''base_link''), (''tf_prefix'', ''robot''),
              (''guess_frame_id'', ''robot/base_link'')]
             [(''publish_tf'', True), (''guess_from_tf'', True)] [] [])
     (OdometryROS_new (1::rat, 0::nat)))
   = (OdometryROS_new (1, 0))
        \<lparr>frameId := ''robot/base_link'', odomFrameId := ''robot/odom'',
         guessFrameId := ''robot/base_link'', publishTf := True, guessFromTf := True\<rparr>
   \<and> snd (onInit_frames
     (launch [(''frame_id'', ''base_link''), (''tf_prefix'', ''robot''),
              (''guess_frame_id'', ''robot/base_link'')]
             [(''publish_tf'', True), (''guess_from_tf'', True)] [] [])
     (OdometryROS_new (1::rat, 0::nat))) = []"
  by (simp add: onInit_frames_def Let_def launch_def param_string_def param_bool_def
        param_double_def OdometryROS_new_def)

section \<open>Pause and resume\<close>

lemma paused_callbacks:
  "paused this \<Longrightarrow> run (callback odo) obs this = (this, replicate (length obs) [])"
proof (induction obs)
  case Nil
  show ?case by simp
next
  case (Cons ob obs)
  obtain ros data stamp where "ob = (ros, data, stamp)"
    by (cases ob)
  with Cons show ?case
    by (simp add: callback_def)
qed

lemma getTransform_paused [simp]:
  "getTransform (this\<lparr>paused := b\<rparr>) ros a c s = getTransform this ros a c s"
  by (simp add: getTransform_def)

lemma init_paused:
  "processData_init odo ros stamp (this\<lparr>paused := b\<rparr>)
     = (map_option (\<lambda>s. s\<lparr>paused := b\<rparr>) (fst (processData_init odo ros stamp this)),
        snd (processData_init odo ros stamp this))"
  by (simp add: processData_init_def split: prod.splits)

lemma guess_paused:
  "processData_guess odo ros stamp (this\<lparr>paused := b\<rparr>) = processData_guess odo ros stamp this"
  by (simp add: processData_guess_def)

lemma publish_paused:
  "processData_publish ros stamp pose (this\<lparr>paused := b\<rparr>)
     = ((fst (processData_publish ros stamp pose this))\<lparr>paused := b\<rparr>,
        snd (processData_publish ros stamp pose this))"
  by (simp add: processData_publish_def)

lemma countdown_paused:
  "processData_countdown odo ros stamp pose (this\<lparr>paused := b\<rparr>)
     = ((fst (processData_countdown odo ros stamp pose this))\<lparr>paused := b\<rparr>,
        snd (processData_countdown odo ros stamp pose this))"
  by (simp add: processData_countdown_def Let_def split: prod.splits)

lemma processData_paused:
  "processData odo ros data stamp (this\<lparr>paused := b\<rparr>)
     = ((fst (processData odo ros data stamp this))\<lparr>paused := b\<rparr>,
        snd (processData odo ros data stamp this))"
proof (cases rule: processData_cases [of odo ros stamp this data])
  case (init_return evs0)
  then show ?thesis
    by (simp add: processData_def init_paused)
next
  case (guess_return this1 evs0 evs1)
  then show ?thesis
    by (simp add: processData_def init_paused guess_paused)
next
  case (estimation this1 evs0 guess evs1 pose e)
  have i: "processData_init odo ros stamp (this\<lparr>paused := b\<rparr>) = (Some (this1\<lparr>paused := b\<rparr>), evs0)"
    using estimation(1) by (simp add: init_paused)
  have g: "processData_guess odo ros stamp (this1\<lparr>paused := b\<rparr>) = (Some guess, evs1)"
    using estimation(2) by (simp add: guess_paused)
  have p: "process odo data guess (odometry (this1\<lparr>paused := b\<rparr>)) = (pose, e)"
    using estimation(3) by simp
  have u: "this1\<lparr>paused := b, odometry := e\<rparr> = this1\<lparr>odometry := e, paused := b\<rparr>"
    by simp
  show ?thesis
    unfolding processData_continue [OF i g p] processData_continue [OF estimation] u
    by (simp add: publish_paused countdown_paused)
qed

lemma pause_paused: "fst (pause this) = this\<lparr>paused := True\<rparr>"
  by (simp add: pause_def)

lemma resume_paused: "fst (resume this) = this\<lparr>paused := False\<rparr>"
  by (simp add: resume_def)

text \<open>
  \<^bold>\<open>C5.\<close> (amended) \<^verbatim>\<open>pause\<close> and \<^verbatim>\<open>resume\<close> write the flag \<^verbatim>\<open>paused_\<close> and
  nothing else. After \<^verbatim>\<open>pause\<close>, any observations delivered through the callback leave
  the node as it is and do nothing. After \<^verbatim>\<open>resume\<close>, the callback does what
  \<^verbatim>\<open>processData\<close> does on the node as it was before the pause, which never reads or writes
  the flag; so a successful estimation then sets the current count to the limit and (for
  an estimator that keeps the pose it returns) the current pose to the returned pose.
\<close>

theorem pause_gate:
  "fst (pause this) = this\<lparr>paused := True\<rparr>
   \<and> run (callback odo) obs (fst (pause this)) = (fst (pause this), replicate (length obs) [])
   \<and> fst (resume (fst (pause this))) = this\<lparr>paused := False\<rparr>
   \<and> callback odo ros data stamp (fst (resume (fst (pause this))))
       = ((fst (processData odo ros data stamp this))\<lparr>paused := False\<rparr>,
          snd (processData odo ros data stamp this))
   \<and> (\<forall>guess pose.
         Odometry_process guess pose
           \<in> set (snd (callback odo ros data stamp (fst (resume (fst (pause this))))))
         \<and> \<not> isNull pose \<longrightarrow>
           resetCurrentCount (fst (callback odo ros data stamp (fst (resume (fst (pause this))))))
             = resetCountdown this
         \<and> (Odometry_contract odo \<longrightarrow>
              getPose odo
                (odometry (fst (callback odo ros data stamp (fst (resume (fst (pause this)))))))
                = pose))"
proof -
  have p: "paused (fst (pause this))"
    by (simp add: pause_paused)
  have r: "fst (resume (fst (pause this))) = this\<lparr>paused := False\<rparr>"
    by (simp add: pause_paused resume_paused)
  have c: "callback odo ros data stamp (fst (resume (fst (pause this))))
             = ((fst (processData odo ros data stamp this))\<lparr>paused := False\<rparr>,
                snd (processData odo ros data stamp this))"
    by (simp add: r callback_def processData_paused)
  have s: "\<forall>guess pose.
         Odometry_process guess pose
           \<in> set (snd (callback odo ros data stamp (fst (resume (fst (pause this))))))
         \<and> \<not> isNull pose \<longrightarrow>
           resetCurrentCount (fst (callback odo ros data stamp (fst (resume (fst (pause this))))))
             = resetCountdown this
         \<and> (Odometry_contract odo \<longrightarrow>
              getPose odo
                (odometry (fst (callback odo ros data stamp (fst (resume (fst (pause this)))))))
                = pose)"
    unfolding c fst_conv snd_conv
    using success_step [of _ _ odo ros data stamp this] by auto
  show ?thesis
    by (intro conjI pause_paused paused_callbacks [OF p] r c s)
qed

theorem pause_gate_witness:
  "run (callback scripted) [(no_tf, 7, 10), (no_tf, 0, 20)] ((node 5 3 1)\<lparr>paused := True\<rparr>)
     = ((node 5 3 1)\<lparr>paused := True\<rparr>, [[], []])
   \<and> Odometry_process 0 7
       \<in> set (snd (callback scripted no_tf 7 30 (fst (resume (fst (pause (node 5 3 1)))))))
   \<and> \<not> isNull (7::rat)
   \<and> Odometry_contract scripted
   \<and> callback scripted no_tf 7 30 (fst (resume (fst (pause (node 5 3 1)))))
       = (node 7 3 3,
          [Odometry_process 0 7, tfBroadcaster_sendTransform 30 ''odom'' ''base_link'' 7,
           odomPub_publish \<lparr>header_stamp = 30, header_frame_id = ''odom'',
             child_frame_id = ''base_link'', pose_pose = 7, pose_covariance = Variance_x2\<rparr>,
           NODELET_INFO_Odom])
   \<and> resetCurrentCount (node 7 3 3) = resetCountdown (node 5 3 1)
   \<and> getPose scripted (odometry (node 7 3 3)) = 7"
proof -
  let ?obs = "[(no_tf, 7::rat, 10::nat), (no_tf, 0, 20)]"
  note T = pause_gate [of "node 5 3 1" scripted ?obs no_tf 7 30]
  have P: "fst (pause (node 5 3 1)) = (node 5 3 1)\<lparr>paused := True\<rparr>"
    by (rule T [THEN conjunct1])
  have a: "run (callback scripted) ?obs ((node 5 3 1)\<lparr>paused := True\<rparr>)
             = ((node 5 3 1)\<lparr>paused := True\<rparr>, [[], []])"
    using T [THEN conjunct2, THEN conjunct1] unfolding P by simp
  have C: "callback scripted no_tf 7 30 (fst (resume (fst (pause (node 5 3 1)))))
       = (node 7 3 3,
          [Odometry_process 0 7, tfBroadcaster_sendTransform 30 ''odom'' ''base_link'' 7,
           odomPub_publish \<lparr>header_stamp = 30, header_frame_id = ''odom'',
             child_frame_id = ''base_link'', pose_pose = 7, pose_covariance = Variance_x2\<rparr>,
           NODELET_INFO_Odom])"
    unfolding T [THEN conjunct2, THEN conjunct2, THEN conjunct2, THEN conjunct1]
    by (simp add: run_defs)
  have e: "Odometry_process 0 7
       \<in> set (snd (callback scripted no_tf 7 30 (fst (resume (fst (pause (node 5 3 1)))))))"
    unfolding C by simp
  have n: "\<not> isNull (7::rat)"
    by (simp add: isNull_def)
  from T [THEN conjunct2, THEN conjunct2, THEN conjunct2, THEN conjunct2] e n scripted_contract
  have "resetCurrentCount (fst (callback scripted no_tf 7 30 (fst (resume (fst (pause (node 5 3 1))))))) = resetCountdown (node 5 3 1)
      \<and> getPose scripted (odometry (fst (callback scripted no_tf 7 30 (fst (resume (fst (pause (node 5 3 1)))))))) = 7"
    by blast
  then have b: "resetCurrentCount (node 7 3 3) = resetCountdown (node 5 3 1)"
    and d: "getPose scripted (odometry (node 7 3 3)) = 7"
    unfolding C fst_conv by simp_all
  show ?thesis
    by (intro conjI a e n scripted_contract C b d)
qed

text \<open>
  Called on a paused node, \<^verbatim>\<open>processData\<close> calls the estimator, publishes and moves the
  pose from 5 to 7.
\<close>

theorem processData_ignores_paused:
  "paused ((node 5 3 3)\<lparr>paused := True\<rparr>)
   \<and> processData scripted no_tf 7 10 ((node 5 3 3)\<lparr>paused := True\<rparr>)
       = ((node 7 3 3)\<lparr>paused := True\<rparr>,
          [Odometry_process 0 7, tfBroadcaster_sendTransform 10 ''odom'' ''base_link'' 7,
           odomPub_publish \<lparr>header_stamp = 10, header_frame_id = ''odom'',
             child_frame_id = ''base_link'', pose_pose = 7, pose_covariance = Variance_x2\<rparr>,
           NODELET_INFO_Odom])
   \<and> (node 7 3 3)\<lparr>paused := True\<rparr> \<noteq> (node 5 3 3)\<lparr>paused := True\<rparr>"
  by (simp add: run_defs)

end
